theory Spec2Isabelle
  imports Complex_Main "HOL-Library.Char_ord" "HOL-Library.List_Lexorder" "HOL-Library.AList"
begin

section \<open>Values of the host language\<close>

text \<open>
  Strings are sequences of code units; the model keeps the code units below 256, so a
  string is a \<^typ>\<open>string\<close>. The default order of \<open>Array.prototype.sort\<close> compares strings
  code unit by code unit, a proper prefix first: that is the lexicographic order on
  \<^typ>\<open>char list\<close>. Finite numbers are rationals; the non-finite values a computation of
  the code can produce are separate constructors of \<open>jsnum\<close>. Where the code parses and
  multiplies sizes, the rounding to double precision is part of the model. Dates are
  milliseconds.
\<close>

type_synonym Date = int

datatype jsnum = Num rat | NaN | PosInfinity | NegInfinity

text \<open>\<open>a / b\<close> on finite operands.\<close>

definition js_div :: "rat \<Rightarrow> rat \<Rightarrow> jsnum" where
  "js_div a b =
     (if b = 0 then (if a = 0 then NaN else if 0 < a then PosInfinity else NegInfinity)
      else Num (a / b))"

fun js_add :: "jsnum \<Rightarrow> jsnum \<Rightarrow> jsnum" where
  "js_add (Num a) (Num b) = Num (a + b)"
| "js_add NaN _ = NaN"
| "js_add _ NaN = NaN"
| "js_add PosInfinity NegInfinity = NaN"
| "js_add NegInfinity PosInfinity = NaN"
| "js_add PosInfinity _ = PosInfinity"
| "js_add _ PosInfinity = PosInfinity"
| "js_add NegInfinity _ = NegInfinity"
| "js_add _ NegInfinity = NegInfinity"

text \<open>\<open>String.prototype.toLowerCase\<close> on one code unit below 256.\<close>

definition lower_char :: "char \<Rightarrow> char" where
  "lower_char c =
     (let n = (of_char c :: nat) in
      if (65 \<le> n \<and> n \<le> 90) \<or> (192 \<le> n \<and> n \<le> 222 \<and> n \<noteq> 215)
      then char_of (n + 32) else c)"

definition toLowerCase :: "string \<Rightarrow> string" where
  "toLowerCase s = map lower_char s"

fun startsWith :: "string \<Rightarrow> string \<Rightarrow> bool" where
  "startsWith s [] = True"
| "startsWith [] (p # ps) = False"
| "startsWith (c # cs) (p # ps) = (c = p \<and> startsWith cs ps)"

text \<open>\<open>s.includes(p)\<close>: \<open>p\<close> occurs in \<open>s\<close> as a contiguous run.\<close>

fun includes_str :: "string \<Rightarrow> string \<Rightarrow> bool" where
  "includes_str [] p = (p = [])"
| "includes_str (c # cs) p = (startsWith (c # cs) p \<or> includes_str cs p)"

section \<open>Data model\<close>

datatype TorrentQuality = SD_480p | HD_720p | FULL_HD_1080p | UHD_2160p | UHD_4K | RAW | UNKNOWN

datatype TorrentCodec = H264 | H265 | HEVC | AV1 | VP9 | XVID | UNKNOWN

datatype TorrentLanguage = JAPANESE | ENGLISH | PORTUGUESE_BR | SPANISH | FRENCH | GERMAN
  | ITALIAN | RUSSIAN | CHINESE | KOREAN | MULTI | UNKNOWN

datatype TorrentReleaseType = EPISODE | BATCH | SEASON | COMPLETE | MOVIE | OVA | SPECIAL

datatype AnimeType = TV | MOVIE | OVA | ONA | SPECIAL | MUSIC

datatype AnimeStatus = AIRING | FINISHED | NOT_YET_AIRED | CANCELLED

datatype Season = WINTER | SPRING | SUMMER | FALL

datatype AgeRating = G | PG | PG_13 | R | R_PLUS | RX

datatype DataSource = MYANIMELIST | ANILIST | KITSU | ANIDB | TMDB

record ExternalId =
  source :: DataSource
  id' :: string

record EpisodeRange =
  start :: rat
  end' :: rat

record DateRange =
  start :: "Date option"
  end' :: "Date option"

record Image =
  small :: "string option"
  medium :: "string option"
  large :: "string option"
  original :: "string option"

record Title =
  romaji :: "string option"
  english :: "string option"
  native :: "string option"
  synonyms :: "string list option"

record Rating =
  source :: DataSource
  score :: "rat option"
  votes :: "rat option"
  rank :: "rat option"
  popularity :: "rat option"

record Episode =
  id' :: string
  animeId :: string
  number :: rat
  title :: "string option"
  titleJapanese :: "string option"
  titleRomaji :: "string option"
  synopsis :: "string option"
  duration :: "rat option"
  images :: "Image option"
  aired :: "Date option"
  filler :: "bool option"
  recap :: "bool option"
  externalIds :: "ExternalId list"
  createdAt :: Date
  updatedAt :: Date

record AnimeSeason =
  id' :: string
  animeId :: string
  seasonNumber :: rat
  title :: "string option"
  episodeCount :: "rat option"
  episodes :: "Episode list option"
  aired :: "DateRange option"
  externalIds :: "ExternalId list"
  createdAt :: Date
  updatedAt :: Date

record TorrentMetadata =
  quality :: TorrentQuality
  codec :: TorrentCodec
  audioLanguages :: "TorrentLanguage list"
  subtitleLanguages :: "TorrentLanguage list"
  releaseType :: TorrentReleaseType
  releaseGroup :: "string option"
  isDual :: "bool option"
  isMultiSub :: "bool option"
  isBatch :: "bool option"
  hasHardSubs :: "bool option"

record Torrent =
  id' :: string
  nyaaId :: string
  title :: string
  category :: string
  magnetLink :: string
  torrentLink :: "string option"
  infoHash :: string
  size' :: string
  sizeBytes :: jsnum
  fileCount :: "rat option"
  seeders :: rat
  leechers :: rat
  downloads :: rat
  publishedAt :: Date
  lastChecked :: "Date option"
  animeId :: "string option"
  episodeIds :: "string list option"
  seasonId :: "string option"
  episodeNumber :: "rat option"
  episodeRange :: "EpisodeRange option"
  metadata :: TorrentMetadata
  description :: "string option"
  comments :: "rat option"
  trusted :: "bool option"
  remake :: "bool option"
  createdAt :: Date
  updatedAt :: Date

text \<open>A \<open>Record<K, number>\<close> that starts as \<open>{}\<close> is a partial map.\<close>

record TorrentStats =
  totalTorrents :: rat
  byQuality :: "TorrentQuality \<rightharpoonup> rat"
  byLanguage :: "TorrentLanguage \<rightharpoonup> rat"
  byReleaseType :: "TorrentReleaseType \<rightharpoonup> rat"
  averageSeeders :: jsnum
  totalSize :: jsnum

record Trailer =
  url :: "string option"
  embedUrl :: "string option"

record Broadcast =
  day :: "string option"
  time :: "string option"
  timezone :: "string option"

datatype RelationType = SEQUEL | PREQUEL | SIDE_STORY | ALTERNATIVE_VERSION
  | ALTERNATIVE_SETTING | PARENT_STORY | SUMMARY | FULL_STORY | SPIN_OFF | OTHER

record AnimeRelation =
  animeId :: string
  relationType :: RelationType

datatype AdaptationType = MANGA | LIGHT_NOVEL | NOVEL | VISUAL_NOVEL | GAME | OTHER_ADAPTATION

record Adaptation =
  type :: AdaptationType
  title :: string
  url :: "string option"

record Anime =
  id' :: string
  title :: Title
  type :: AnimeType
  status :: AnimeStatus
  episodes :: "rat option"
  duration :: "rat option"
  season :: "Season option"
  year :: "rat option"
  synopsis :: "string option"
  background :: "string option"
  images :: Image
  trailer :: "Trailer option"
  aired :: DateRange
  broadcast :: "Broadcast option"
  ratings :: "Rating list"
  ageRating :: "AgeRating option"
  genres :: "string list"
  themes :: "string list"
  demographics :: "string list option"
  studios :: "string list"
  producers :: "string list"
  licensors :: "string list"
  relations :: "AnimeRelation list option"
  adaptations :: "Adaptation list option"
  externalIds :: "ExternalId list"
  createdAt :: Date
  updatedAt :: Date
  lastSyncedAt :: Date

section \<open>Anime unification service\<close>

record UnificationOptions =
  preferredSources :: "DataSource list option"
  minSourcesForConsensus :: "rat option"
  mergeArrays :: "bool option"

datatype error = TypeError | NoDataError

text \<open>\<open>selectBestValue\<close>: the candidates that are not \<open>undefined\<close>, then the first of them.\<close>

definition selectBestValue :: "'a option list \<Rightarrow> DataSource list \<Rightarrow> 'a option" where
  "selectBestValue values preferredSources' =
     (let defined = List.map_filter (\<lambda>v. v) values in
      if length defined = 0 then None
      else if length defined = 1 then Some (defined ! 0)
      else Some (defined ! 0))"

text \<open>
  \<open>mergeArrayFields\<close>: a \<open>Set\<close> keeps the first insertion of each item, in insertion
  order; the empty string is falsy and is not added; the result is sorted by the default
  order.
\<close>

definition mergeArrayFields :: "string list list \<Rightarrow> string list" where
  "mergeArrayFields arrays =
     sort (rev (remdups (rev (filter (\<lambda>item. item \<noteq> []) (concat arrays)))))"

text \<open>
  \<open>unifyAnimeData\<close>. The two readings of the clock are parameters. On an empty list
  \<open>base\<close> is \<open>undefined\<close> and reading a field of it throws.
\<close>

definition unifyAnimeData ::
  "Date \<Rightarrow> Date \<Rightarrow> Anime list \<Rightarrow> UnificationOptions \<Rightarrow> error + Anime" where
  "unifyAnimeData nowSynced nowUpdated sources options =
     (case sources of
        [] \<Rightarrow> Inl TypeError
      | base # _ \<Rightarrow>
          let preferred = (case preferredSources options of None \<Rightarrow> [] | Some ps \<Rightarrow> ps);
              merge = (case mergeArrays options of None \<Rightarrow> True | Some b \<Rightarrow> b);
              unified = base;
              unified = unified\<lparr>Anime.title :=
                \<lparr>romaji = selectBestValue (map (\<lambda>s. romaji (Anime.title s)) sources) preferred,
                 english = selectBestValue (map (\<lambda>s. english (Anime.title s)) sources) preferred,
                 native = selectBestValue (map (\<lambda>s. native (Anime.title s)) sources) preferred,
                 synonyms =
                   (if merge
                    then Some (mergeArrayFields
                      (map (\<lambda>s. case synonyms (Anime.title s) of None \<Rightarrow> [] | Some ys \<Rightarrow> ys)
                         sources))
                    else synonyms (Anime.title base))\<rparr>\<rparr>;
              synopses = filter (\<lambda>s. s \<noteq> []) (List.map_filter synopsis sources);
              unified = unified\<lparr>synopsis :=
                (case sort_key (\<lambda>s. - int (length s)) synopses of
                   [] \<Rightarrow> synopsis base
                 | longest # _ \<Rightarrow> Some longest)\<rparr>;
              unified = unified\<lparr>ratings := concat (map ratings sources)\<rparr>;
              unified =
                (if merge
                 then unified\<lparr>genres := mergeArrayFields (map genres sources),
                              themes := mergeArrayFields (map themes sources),
                              studios := mergeArrayFields (map studios sources),
                              producers := mergeArrayFields (map producers sources)\<rparr>
                 else unified);
              unified = unified\<lparr>externalIds := concat (map externalIds sources)\<rparr>;
              unified = unified\<lparr>lastSyncedAt := nowSynced\<rparr>;
              unified = unified\<lparr>updatedAt := nowUpdated\<rparr>
          in Inr unified)"

text \<open>
  What \<open>provider.fetchAnimeById(id)\<close> does for the caller: it resolves to a record, it
  resolves to \<open>null\<close>, or it throws. A provider is that one method; the registry maps a
  source to its provider.
\<close>

datatype fetch_outcome = Returned Anime | ReturnedNull | Threw

type_synonym provider = "string \<Rightarrow> fetch_outcome"

type_synonym providers = "DataSource \<rightharpoonup> provider"

text \<open>\<open>InMemoryAnimeRepository\<close>: a map from the internal id to the record.\<close>

type_synonym anime_repository = "string \<rightharpoonup> Anime"

definition save :: "Date \<Rightarrow> Anime \<Rightarrow> anime_repository \<Rightarrow> Anime \<times> anime_repository" where
  "save now anime animes =
     (let anime = anime\<lparr>updatedAt := now\<rparr>
      in (anime, animes(Anime.id' anime \<mapsto> anime)))"

text \<open>
  The loop of \<open>fetchAndUnify\<close> over the external ids: a source without a registered
  provider is skipped, a provider that throws is caught, a \<open>null\<close> is not pushed.
\<close>

fun fetchFromSources :: "providers \<Rightarrow> ExternalId list \<Rightarrow> Anime list" where
  "fetchFromSources registry [] = []"
| "fetchFromSources registry (ext # rest) =
     (case registry (ExternalId.source ext) of
        None \<Rightarrow> fetchFromSources registry rest
      | Some provider \<Rightarrow>
          (case provider (ExternalId.id' ext) of
             Returned anime \<Rightarrow> anime # fetchFromSources registry rest
           | ReturnedNull \<Rightarrow> fetchFromSources registry rest
           | Threw \<Rightarrow> fetchFromSources registry rest))"

definition fetchAndUnify ::
  "Date \<Rightarrow> Date \<Rightarrow> Date \<Rightarrow> providers \<Rightarrow> anime_repository \<Rightarrow> ExternalId list \<Rightarrow>
   UnificationOptions \<Rightarrow> error + (Anime \<times> anime_repository)" where
  "fetchAndUnify nowSynced nowUpdated nowSaved registry repository externalIds' options =
     (let animeDataFromSources = fetchFromSources registry externalIds' in
      if length animeDataFromSources = 0 then Inl NoDataError
      else
        (case unifyAnimeData nowSynced nowUpdated animeDataFromSources options of
           Inl e \<Rightarrow> Inl e
         | Inr unified \<Rightarrow> Inr (save nowSaved unified repository)))"

subsection \<open>Sample records\<close>

definition sourceA :: Anime where
  "sourceA =
     \<lparr>Anime.id' = ''mal-1'',
      title = \<lparr>romaji = None, english = Some ''Fullmetal Alchemist'', native = None,
               synonyms = Some [''FMA'', '''']\<rparr>,
      type = TV, status = FINISHED, episodes = Some 64, duration = None, season = None,
      year = None, synopsis = Some ''Two brothers.'', background = None,
      images = \<lparr>small = None, medium = None, large = None, original = None\<rparr>,
      trailer = None, aired = \<lparr>start = None, end' = None\<rparr>, broadcast = None,
      ratings = [\<lparr>Rating.source = MYANIMELIST, score = Some 9, votes = Some 100, rank = None,
                  popularity = None\<rparr>],
      ageRating = None, genres = [''Drama'', '''', ''Action''], themes = [''Military''],
      demographics = None, studios = [''Bones''], producers = [''Aniplex''],
      licensors = [''Funimation''], relations = None, adaptations = None,
      externalIds = [\<lparr>ExternalId.source = MYANIMELIST, id' = ''5114''\<rparr>],
      createdAt = 10, updatedAt = 10, lastSyncedAt = 10\<rparr>"

definition sourceB :: Anime where
  "sourceB =
     sourceA\<lparr>Anime.id' := ''anilist-1'',
       title := \<lparr>romaji = Some ''Hagane no Renkinjutsushi'', english = Some ''FMA Brotherhood'',
                 native = None, synonyms = None\<rparr>,
       year := Some 2009, synopsis := Some ''Two brothers search for the stone.'',
       ratings := [\<lparr>Rating.source = ANILIST, score = Some 9, votes = None, rank = None,
                     popularity = None\<rparr>],
       genres := [''Adventure'', ''Action''], licensors := [''Aniplex of America''],
       externalIds := [\<lparr>ExternalId.source = ANILIST, id' = ''5114''\<rparr>]\<rparr>"

text \<open>A record that already carries the ratings of two catalogues.\<close>

definition sourceAB :: Anime where
  "sourceAB = sourceA\<lparr>ratings := ratings sourceA @ ratings sourceB\<rparr>"

definition defaultOptions :: UnificationOptions where
  "defaultOptions =
     \<lparr>preferredSources = None, minSourcesForConsensus = None, mergeArrays = None\<rparr>"

definition sampleRegistry :: providers where
  "sampleRegistry =
     [MYANIMELIST \<mapsto> (\<lambda>i. if i = ''5114'' then Returned sourceA else ReturnedNull),
      ANILIST \<mapsto> (\<lambda>i. Threw)]"

section \<open>Nyaa service\<close>

subsection \<open>Character classes of the patterns\<close>

definition isDigit :: "char \<Rightarrow> bool" where
  "isDigit c = (48 \<le> (of_char c :: nat) \<and> (of_char c :: nat) \<le> 57)"

definition isLetter :: "char \<Rightarrow> bool" where
  "isLetter c =
     ((65 \<le> (of_char c :: nat) \<and> (of_char c :: nat) \<le> 90) \<or>
      (97 \<le> (of_char c :: nat) \<and> (of_char c :: nat) \<le> 122))"

text \<open>The class \<open>[a-z0-9]\<close>.\<close>

definition isLowerAlnum :: "char \<Rightarrow> bool" where
  "isLowerAlnum c =
     ((97 \<le> (of_char c :: nat) \<and> (of_char c :: nat) \<le> 122) \<or> isDigit c)"

text \<open>The class \<open>\s\<close>, which is also what \<open>trim\<close> strips, below 256.\<close>

definition isSpace :: "char \<Rightarrow> bool" where
  "isSpace c = ((of_char c :: nat) \<in> {9, 10, 11, 12, 13, 32, 160})"

subsection \<open>Languages of a release title\<close>

definition extractAudioLanguages :: "string \<Rightarrow> TorrentLanguage list" where
  "extractAudioLanguages title' =
     (let titleLower = toLowerCase title';
          languages =
            (if includes_str titleLower ''dual audio'' \<or> includes_str titleLower ''multi audio''
             then [JAPANESE, ENGLISH]
             else
               (if includes_str titleLower ''japanese'' \<or> includes_str titleLower ''jpn'' \<or>
                   includes_str titleLower ''jap''
                then [JAPANESE] else []) @
               (if includes_str titleLower ''english'' \<or> includes_str titleLower ''eng'' \<or>
                   includes_str titleLower ''dub''
                then [ENGLISH] else []))
      in if length languages > 0 then languages else [JAPANESE])"

text \<open>\<open>s.split(sep)\<close> for a separator of one character.\<close>

fun split_on :: "char \<Rightarrow> string \<Rightarrow> string list" where
  "split_on sep [] = [[]]"
| "split_on sep (c # cs) =
     (if c = sep then [] # split_on sep cs
      else (case split_on sep cs of [] \<Rightarrow> [[c]] | p # ps \<Rightarrow> (c # p) # ps))"

text \<open>The entries of \<open>langMap\<close>, in the order of the object literal.\<close>

definition langMap :: "(string \<times> TorrentLanguage) list" where
  "langMap =
     [(''eng|english'', ENGLISH),
      (''pt-br|portuguese'', PORTUGUESE_BR),
      (''esp|spanish'', SPANISH),
      (''fre|french'', FRENCH),
      (''ger|german'', GERMAN),
      (''ita|italian'', ITALIAN),
      (''rus|russian'', RUSSIAN),
      (''chi|chinese'', CHINESE),
      (''kor|korean'', KOREAN)]"

definition extractSubtitleLanguages :: "string \<Rightarrow> TorrentLanguage list" where
  "extractSubtitleLanguages title' =
     (let titleLower = toLowerCase title' in
      if includes_str titleLower ''multi'' \<and>
         (includes_str titleLower ''sub'' \<or> includes_str titleLower ''subtitle'')
      then [MULTI]
      else
        let languages =
              map snd
                (filter
                   (\<lambda>(pattern, lang).
                      list_ex (\<lambda>p. includes_str titleLower p) (split_on CHR ''|'' pattern))
                   langMap)
        in if length languages > 0 then languages else [ENGLISH])"

subsection \<open>Size strings\<close>

definition units :: "(string \<times> rat) list" where
  "units =
     [(''B'', 1), (''KB'', 1024), (''MB'', 1024 ^ 2), (''GB'', 1024 ^ 3), (''TB'', 1024 ^ 4),
      (''KiB'', 1024), (''MiB'', 1024 ^ 2), (''GiB'', 1024 ^ 3), (''TiB'', 1024 ^ 4)]"

text \<open>
  \<open>units\<close> is an object literal, so \<open>units[unit]\<close> also finds what every object inherits.
  These are the inherited names that are made of letters only; each is a function, and a
  number times a function is \<open>NaN\<close>.
\<close>

definition objectPrototypeKeys :: "string list" where
  "objectPrototypeKeys =
     [''constructor'', ''hasOwnProperty'', ''isPrototypeOf'', ''propertyIsEnumerable'',
      ''toLocaleString'', ''toString'', ''valueOf'']"

text \<open>
  The numbers of the size parser are binary floating-point numbers of 53 significant bits
  (IEEE 754 double precision): \<open>toDouble\<close> rounds a rational to the nearest of them, a tie
  going to the even significand, with the subnormal numbers below 2 to the power -1022
  and infinity when the rounded value reaches 2 to the power 1024. \<open>parseFloat\<close> and the
  product round their exact results this way.
\<close>

function bitLength :: "int \<Rightarrow> nat" where
  "bitLength k = (if k \<le> 0 then 0 else Suc (bitLength (k div 2)))"
  by pat_completeness auto
termination
  by (relation "measure nat") auto

declare bitLength.simps [simp del]

definition pow2 :: "int \<Rightarrow> rat" where
  "pow2 e = (if 0 \<le> e then 2 ^ nat e else 1 / 2 ^ nat (- e))"

text \<open>For \<open>x > 0\<close>, the exponent \<open>e\<close> with \<open>pow2 e \<le> x < pow2 (e + 1)\<close>.\<close>

definition floorLog2 :: "rat \<Rightarrow> int" where
  "floorLog2 x =
     (if 1 \<le> x then int (bitLength \<lfloor>x\<rfloor>) - 1
      else - int (bitLength (\<lceil>1 / x\<rceil> - 1)))"

definition roundHalfEven :: "rat \<Rightarrow> int" where
  "roundHalfEven y =
     (let f = \<lfloor>y\<rfloor>; d = y - of_int f
      in if d < 1 / 2 then f
         else if 1 / 2 < d then f + 1
         else if even f then f else f + 1)"

definition toDouble :: "rat \<Rightarrow> jsnum" where
  "toDouble x =
     (if x = 0 then Num 0
      else
        let a = \<bar>x\<bar>;
            e = max (floorLog2 a) (- 1022);
            q = pow2 (e - 52);
            n = roundHalfEven (a / q);
            r = of_int n * q
        in if 1024 \<le> e \<or> (e = 1023 \<and> n = 2 ^ 53)
           then (if 0 < x then PosInfinity else NegInfinity)
           else Num (if 0 < x then r else - r))"

fun js_mul :: "jsnum \<Rightarrow> jsnum \<Rightarrow> jsnum" where
  "js_mul (Num a) (Num b) = toDouble (a * b)"
| "js_mul NaN _ = NaN"
| "js_mul _ NaN = NaN"
| "js_mul (Num a) PosInfinity = (if a = 0 then NaN else if 0 < a then PosInfinity else NegInfinity)"
| "js_mul (Num a) NegInfinity = (if a = 0 then NaN else if 0 < a then NegInfinity else PosInfinity)"
| "js_mul PosInfinity (Num b) = (if b = 0 then NaN else if 0 < b then PosInfinity else NegInfinity)"
| "js_mul NegInfinity (Num b) = (if b = 0 then NaN else if 0 < b then NegInfinity else PosInfinity)"
| "js_mul PosInfinity PosInfinity = PosInfinity"
| "js_mul NegInfinity NegInfinity = PosInfinity"
| "js_mul PosInfinity NegInfinity = NegInfinity"
| "js_mul NegInfinity PosInfinity = NegInfinity"

text \<open>
  \<open>Math.round\<close>: the nearest integer, a half going up. The result is a double again: a
  double of size 2 to the power 52 or more is an integer already.
\<close>

fun Math_round :: "jsnum \<Rightarrow> jsnum" where
  "Math_round (Num x) = Num (of_int \<lfloor>x + 1 / 2\<rfloor>)"
| "Math_round n = n"

definition digitsValue :: "string \<Rightarrow> int" where
  "digitsValue ds = foldl (\<lambda>n c. 10 * n + ((of_char c :: int) - 48)) 0 ds"

text \<open>
  \<open>parseFloat\<close> on a string of digits and dots: it reads the longest prefix that is a
  decimal literal (digits, then at most one dot and digits) and gives \<open>NaN\<close> when that
  prefix has no digit; otherwise it gives the double nearest to the decimal.
\<close>

definition parseFloat :: "string \<Rightarrow> jsnum" where
  "parseFloat s =
     (let intPart = takeWhile isDigit s;
          rest = dropWhile isDigit s;
          fracPart = (case rest of
                        [] \<Rightarrow> []
                      | c # cs \<Rightarrow> if c = CHR ''.'' then takeWhile isDigit cs else [])
      in if intPart = [] \<and> fracPart = [] then NaN
         else toDouble (of_int (digitsValue intPart)
                        + of_int (digitsValue fracPart) / 10 ^ length fracPart))"

text \<open>
  \<open>sizeStr.match(/^([\d.]+)\s*([A-Za-z]+)$/)\<close>. The three classes are disjoint, so the
  groups are determined: the longest run of digits and dots, then the white space, then
  letters up to the end.
\<close>

definition matchSize :: "string \<Rightarrow> (string \<times> string) option" where
  "matchSize sizeStr =
     (let num = takeWhile (\<lambda>c. isDigit c \<or> c = CHR ''.'') sizeStr;
          rest = dropWhile (\<lambda>c. isDigit c \<or> c = CHR ''.'') sizeStr;
          unit = dropWhile isSpace rest
      in if num \<noteq> [] \<and> unit \<noteq> [] \<and> list_all isLetter unit then Some (num, unit) else None)"

definition parseSizeToBytes :: "string \<Rightarrow> jsnum" where
  "parseSizeToBytes sizeStr =
     (case matchSize sizeStr of
        None \<Rightarrow> Num 0
      | Some (num, unit) \<Rightarrow>
          let value = parseFloat num
          in Math_round (js_mul value
               (case map_of units unit of
                  Some multiplier \<Rightarrow> Num multiplier
                | None \<Rightarrow> if unit \<in> set objectPrototypeKeys then NaN else Num 1)))"

text \<open>
  A size string as the pattern reads it: a numeric part of digits and dots, white space
  (possibly none), and a unit of letters.
\<close>

definition sizeShape :: "string \<Rightarrow> string \<Rightarrow> string \<Rightarrow> string \<Rightarrow> bool" where
  "sizeShape sizeStr num ws unit \<longleftrightarrow>
     sizeStr = num @ ws @ unit \<and> num \<noteq> [] \<and> list_all (\<lambda>c. isDigit c \<or> c = CHR ''.'') num \<and>
     list_all isSpace ws \<and> unit \<noteq> [] \<and> list_all isLetter unit"

subsection \<open>Duplicates\<close>

text \<open>\<open>s.replace(/[class]+/g, ' ')\<close>: every maximal run of the class becomes one space.\<close>

function replaceRuns :: "(char \<Rightarrow> bool) \<Rightarrow> string \<Rightarrow> string" where
  "replaceRuns cls [] = []"
| "replaceRuns cls (c # cs) =
     (if cls c then CHR '' '' # replaceRuns cls (dropWhile cls cs)
      else c # replaceRuns cls cs)"
  by pat_completeness auto
termination
  by (relation "measure (\<lambda>(cls, s). length s)")
    (auto simp add: length_dropWhile_le less_Suc_eq_le)

definition trim :: "string \<Rightarrow> string" where
  "trim s = rev (dropWhile isSpace (rev (dropWhile isSpace s)))"

definition normalize :: "string \<Rightarrow> string" where
  "normalize s =
     replaceRuns isSpace (trim (replaceRuns (\<lambda>c. \<not> isLowerAlnum c) (toLowerCase s)))"

text \<open>The key of a torrent: \<open>t.infoHash || normalize(t.title)\<close>.\<close>

definition dedupKey :: "Torrent \<Rightarrow> string" where
  "dedupKey t = (if infoHash t \<noteq> [] then infoHash t else normalize (Torrent.title t))"

text \<open>
  The loop over the torrents. The \<open>Map\<close> is an association list in insertion order;
  \<open>map.set\<close> on a key that is present keeps its place.
\<close>

fun dedupLoop :: "Torrent list \<Rightarrow> (string \<times> Torrent) list \<Rightarrow> (string \<times> Torrent) list" where
  "dedupLoop [] m = m"
| "dedupLoop (t # ts) m =
     (case map_of m (dedupKey t) of
        None \<Rightarrow> dedupLoop ts (AList.update (dedupKey t) t m)
      | Some existing \<Rightarrow>
          if seeders t > seeders existing
          then dedupLoop ts (AList.update (dedupKey t) t m)
          else dedupLoop ts m)"

text \<open>The final sort is stable, by descending seeders.\<close>

definition deduplicateTorrents :: "Torrent list \<Rightarrow> Torrent list" where
  "deduplicateTorrents torrents =
     sort_key (\<lambda>t. - seeders t) (map snd (dedupLoop torrents []))"

subsection \<open>Statistics\<close>

text \<open>\<open>InMemoryTorrentRepository\<close>: the entries of its \<open>Map\<close>, in insertion order.\<close>

type_synonym torrent_repository = "(string \<times> Torrent) list"

definition findByAnimeId :: "torrent_repository \<Rightarrow> string \<Rightarrow> Torrent list" where
  "findByAnimeId torrents animeId' =
     filter (\<lambda>torrent. Torrent.animeId torrent = Some animeId') (map snd torrents)"

text \<open>\<open>r[k] = (r[k] ?? 0) + 1\<close>.\<close>

definition increment :: "('k \<rightharpoonup> rat) \<Rightarrow> 'k \<Rightarrow> ('k \<rightharpoonup> rat)" where
  "increment r k = r(k \<mapsto> (case r k of None \<Rightarrow> 0 | Some n \<Rightarrow> n) + 1)"

definition statsStep :: "TorrentStats \<Rightarrow> Torrent \<Rightarrow> TorrentStats" where
  "statsStep stats torrent =
     stats\<lparr>byQuality := increment (byQuality stats) (quality (metadata torrent)),
           byLanguage :=
             foldl increment (byLanguage stats) (audioLanguages (metadata torrent)),
           byReleaseType := increment (byReleaseType stats) (releaseType (metadata torrent)),
           totalSize := js_add (totalSize stats) (sizeBytes torrent)\<rparr>"

definition getTorrentStats :: "torrent_repository \<Rightarrow> string \<Rightarrow> TorrentStats" where
  "getTorrentStats torrentRepository animeId' =
     (let torrents = findByAnimeId torrentRepository animeId';
          stats = \<lparr>totalTorrents = of_nat (length torrents),
                   byQuality = Map.empty,
                   byLanguage = Map.empty,
                   byReleaseType = Map.empty,
                   averageSeeders = Num 0,
                   totalSize = Num 0\<rparr>
      in if length torrents = 0 then stats
         else
           let stats = foldl statsStep stats torrents
           in stats\<lparr>averageSeeders :=
                js_div (foldl (\<lambda>sum t. sum + seeders t) 0 torrents)
                  (of_nat (length torrents))\<rparr>)"

subsection \<open>Sample torrents\<close>

definition torrentA :: Torrent where
  "torrentA =
     \<lparr>Torrent.id' = ''t-1'', nyaaId = ''1001'',
      title = ''[SubsPlease] One Piece - 1000 (1080p) [Dual Audio]'',
      category = ''1_2'', magnetLink = ''magnet:?xt=urn:btih:aa'', torrentLink = None,
      infoHash = ''aa'', size' = ''1.4 GiB'', sizeBytes = Num 1503238554, fileCount = None,
      seeders = 10, leechers = 1, downloads = 100, publishedAt = 5, lastChecked = None,
      animeId = Some ''mal-1'', episodeIds = None, seasonId = None,
      episodeNumber = Some 1000, episodeRange = None,
      metadata = \<lparr>quality = FULL_HD_1080p, codec = TorrentCodec.UNKNOWN,
                   audioLanguages = [JAPANESE, ENGLISH], subtitleLanguages = [ENGLISH],
                   releaseType = EPISODE, releaseGroup = Some ''Dual Audio'',
                   isDual = Some True, isMultiSub = Some False, isBatch = Some False,
                   hasHardSubs = Some False\<rparr>,
      description = None, comments = None, trusted = Some True, remake = Some False,
      createdAt = 6, updatedAt = 6\<rparr>"

text \<open>The same release reported again, with more seeders.\<close>

definition torrentB :: Torrent where
  "torrentB = torrentA\<lparr>Torrent.id' := ''t-2'', nyaaId := ''1002'', seeders := 50\<rparr>"

text \<open>Two reports without a hash whose titles differ in case and punctuation only.\<close>

definition torrentC :: Torrent where
  "torrentC =
     torrentA\<lparr>Torrent.id' := ''t-3'', Torrent.title := ''One.Piece  -  1001!'',
       infoHash := [], seeders := 30\<rparr>"

definition torrentD :: Torrent where
  "torrentD =
     torrentA\<lparr>Torrent.id' := ''t-4'', Torrent.title := '' ONE PIECE 1001'',
       infoHash := [], seeders := 7\<rparr>"

section \<open>Season organizer\<close>

text \<open>
  Modelled from the spec: the partition of the season organizer, whose body is not among
  the sources: consecutive chunks of at most \<open>n\<close> elements.
\<close>

function chunksOf :: "nat \<Rightarrow> 'a list \<Rightarrow> 'a list list" where
  "chunksOf n xs = (if n = 0 \<or> xs = [] then [] else take n xs # chunksOf n (drop n xs))"
  by pat_completeness auto
termination
  by (relation "measure (\<lambda>(n, xs). length xs)") auto

text \<open>
  Modelled from the spec: the heuristic constant of the season organizer, 13 episodes per
  season.
\<close>

definition episodesPerSeason :: nat where
  "episodesPerSeason = 13"

text \<open>
  Modelled from the spec: \<open>organizeIntoSeasons\<close>, the season organizer of the main class,
  whose body is not among the sources (the tests call it, and the season model and the
  season repository are there). The spec: the flat, ordered episode list is partitioned
  into consecutive chunks of at most 13 episodes; one season record is created per chunk,
  numbered from 1, with \<open>episodeCount\<close> the length of the chunk and \<open>episodes\<close> the chunk.
  What the spec leaves open (the fresh id, the time stamps and the remaining fields of the
  \<open>k\<close>-th record) is the parameter \<open>blank\<close>.
\<close>

definition organizeIntoSeasons ::
  "(nat \<Rightarrow> AnimeSeason) \<Rightarrow> string \<Rightarrow> Episode list \<Rightarrow> AnimeSeason list" where
  "organizeIntoSeasons blank animeId' episodes' =
     map (\<lambda>(k, chunk).
            (blank k)\<lparr>AnimeSeason.animeId := animeId',
                      seasonNumber := of_nat (k + 1),
                      episodeCount := Some (of_nat (length chunk)),
                      AnimeSeason.episodes := Some chunk\<rparr>)
       (enumerate 0 (chunksOf episodesPerSeason episodes'))"

text \<open>The episodes a season record holds; none when the field is absent.\<close>

definition seasonEpisodes :: "AnimeSeason \<Rightarrow> Episode list" where
  "seasonEpisodes s = (case AnimeSeason.episodes s of None \<Rightarrow> [] | Some es \<Rightarrow> es)"

definition blankSeason :: "nat \<Rightarrow> AnimeSeason" where
  "blankSeason k =
     \<lparr>AnimeSeason.id' = ''season-'' @ replicate k CHR ''i'', animeId = [], seasonNumber = 0,
      title = None, episodeCount = None, episodes = None, aired = None, externalIds = [],
      createdAt = 40, updatedAt = 40\<rparr>"

definition sampleEpisode :: "nat \<Rightarrow> Episode" where
  "sampleEpisode n =
     \<lparr>Episode.id' = ''test-ep-'' @ replicate n CHR ''i'', animeId = ''test-anime-1'',
      number = of_nat n, title = None, titleJapanese = None, titleRomaji = None,
      synopsis = None, duration = None, images = None, aired = None, filler = None,
      recap = None, externalIds = [], createdAt = 40, updatedAt = 40\<rparr>"

section \<open>Field selection\<close>

lemma selectBestValue_case:
  "selectBestValue vs ps = (case List.map_filter (\<lambda>v. v) vs of [] \<Rightarrow> None | x # _ \<Rightarrow> Some x)"
  by (cases "List.map_filter (\<lambda>v. v) vs") (simp_all add: selectBestValue_def Let_def)

lemma selectBestValue_none:
  "(\<forall>v \<in> set vs. v = None) \<Longrightarrow> selectBestValue vs ps = None"
  by (induction vs) (simp_all add: selectBestValue_case)

lemma selectBestValue_first:
  "i < length vs \<Longrightarrow> vs ! i = Some v \<Longrightarrow> (\<forall>j<i. vs ! j = None) \<Longrightarrow>
   selectBestValue vs ps = Some v"
proof (induction vs arbitrary: i)
  case Nil
  then show ?case by simp
next
  case (Cons x xs)
  show ?case
  proof (cases i)
    case 0
    with Cons.prems show ?thesis
      by (simp add: selectBestValue_case)
  next
    case (Suc k)
    with Cons.prems have x: "x = None" by auto
    from Suc Cons.prems have "selectBestValue xs ps = Some v"
      by (intro Cons.IH[of k]) auto
    with x show ?thesis
      by (simp add: selectBestValue_case)
  qed
qed

lemma selectBestValue_preferred: "selectBestValue vs ps = selectBestValue vs qs"
  by (simp add: selectBestValue_case)


lemma unify_defined: "\<exists>u. unifyAnimeData t1 t2 (base # rest) options = Inr u"
  by (simp add: unifyAnimeData_def Let_def)

lemma unify_title_romaji:
  "unifyAnimeData t1 t2 (base # rest) options = Inr u \<Longrightarrow>
   romaji (Anime.title u) = selectBestValue (map (\<lambda>s. romaji (Anime.title s)) (base # rest)) []"
  by (auto simp add: unifyAnimeData_def Let_def selectBestValue_case)

lemma unify_title_english:
  "unifyAnimeData t1 t2 (base # rest) options = Inr u \<Longrightarrow>
   english (Anime.title u) = selectBestValue (map (\<lambda>s. english (Anime.title s)) (base # rest)) []"
  by (auto simp add: unifyAnimeData_def Let_def selectBestValue_case)

lemma unify_title_native:
  "unifyAnimeData t1 t2 (base # rest) options = Inr u \<Longrightarrow>
   native (Anime.title u) = selectBestValue (map (\<lambda>s. native (Anime.title s)) (base # rest)) []"
  by (auto simp add: unifyAnimeData_def Let_def selectBestValue_case)

lemma unify_preferred:
  "unifyAnimeData t1 t2 sources (options\<lparr>preferredSources := ps\<rparr>) =
   unifyAnimeData t1 t2 sources options"
  by (simp add: unifyAnimeData_def Let_def selectBestValue_case split: list.splits)

lemma unify_base_scalars:
  "unifyAnimeData t1 t2 (base # rest) options = Inr u \<Longrightarrow>
   Anime.id' u = Anime.id' base \<and> Anime.type u = Anime.type base \<and> status u = status base \<and>
   episodes u = episodes base \<and> duration u = duration base \<and> season u = season base \<and>
   year u = year base \<and> background u = background base \<and> images u = images base \<and>
   trailer u = trailer base \<and> aired u = aired base \<and> broadcast u = broadcast base \<and>
   ageRating u = ageRating base \<and> createdAt u = createdAt base"
  by (auto simp add: unifyAnimeData_def Let_def)

text \<open>
  Claim C2, as the code has it. For each of the title fields \<open>romaji\<close>, \<open>english\<close> and
  \<open>native\<close> and every non-empty list of sources, the unified value is undefined when no
  source defines the field and otherwise the first defined value in source order (the only
  one, when exactly one source defines it); \<open>preferredSources\<close> does not change the result.
  The other scalar fields are those of the first source.
\<close>

theorem unify_title_selection:
  fixes f :: "Title \<Rightarrow> string option"
  assumes "f \<in> {romaji, english, native}"
  shows "\<exists>u. unifyAnimeData t1 t2 (base # rest) options = Inr u \<and>
     unifyAnimeData t1 t2 (base # rest) (options\<lparr>preferredSources := ps\<rparr>) = Inr u \<and>
     ((\<forall>s \<in> set (base # rest). f (Anime.title s) = None) \<longrightarrow> f (Anime.title u) = None) \<and>
     (\<forall>i v. i < length (base # rest) \<and> f (Anime.title ((base # rest) ! i)) = Some v \<and>
        (\<forall>j<i. f (Anime.title ((base # rest) ! j)) = None) \<longrightarrow> f (Anime.title u) = Some v) \<and>
     year u = year base \<and> episodes u = episodes base \<and> duration u = duration base \<and>
     season u = season base \<and> background u = background base \<and>
     Anime.type u = Anime.type base \<and> status u = status base"
proof -
  obtain u where u: "unifyAnimeData t1 t2 (base # rest) options = Inr u"
    using unify_defined by blast
  let ?vs = "map (\<lambda>s. f (Anime.title s)) (base # rest)"
  have sel: "f (Anime.title u) = selectBestValue ?vs []"
    using assms unify_title_romaji[OF u] unify_title_english[OF u] unify_title_native[OF u]
    by auto
  have none: "(\<forall>s \<in> set (base # rest). f (Anime.title s) = None) \<longrightarrow> f (Anime.title u) = None"
    unfolding sel by (intro impI selectBestValue_none) auto
  have first: "\<forall>i v. i < length (base # rest) \<and> f (Anime.title ((base # rest) ! i)) = Some v \<and>
        (\<forall>j<i. f (Anime.title ((base # rest) ! j)) = None) \<longrightarrow> f (Anime.title u) = Some v"
  proof (intro allI impI)
    fix i v
    assume h: "i < length (base # rest) \<and> f (Anime.title ((base # rest) ! i)) = Some v \<and>
        (\<forall>j<i. f (Anime.title ((base # rest) ! j)) = None)"
    have "selectBestValue ?vs [] = Some v"
    proof (rule selectBestValue_first[of i])
      show "i < length ?vs" using h by simp
      show "?vs ! i = Some v" using h by (simp only: nth_map)
      show "\<forall>j<i. ?vs ! j = None"
      proof (intro allI impI)
        fix j assume "j < i"
        with h have "j < length (base # rest)" "f (Anime.title ((base # rest) ! j)) = None"
          by auto
        then show "?vs ! j = None" by (simp only: nth_map)
      qed
    qed
    then show "f (Anime.title u) = Some v" by (simp only: sel)
  qed
  from u unify_preferred unify_base_scalars[OF u] none first
  show ?thesis by simp
qed


theorem unify_title_selection_witness:
  "romaji \<in> {romaji, english, native :: Title \<Rightarrow> string option} \<and>
   (\<exists>u. unifyAnimeData 20 21 [sourceA, sourceB] defaultOptions = Inr u \<and>
     unifyAnimeData 20 21 [sourceA, sourceB]
       (defaultOptions\<lparr>preferredSources := Some [ANILIST]\<rparr>) = Inr u \<and>
     romaji (Anime.title u) = Some ''Hagane no Renkinjutsushi'' \<and> year u = None)"
proof -
  have h: "romaji \<in> {romaji, english, native :: Title \<Rightarrow> string option}" by simp
  from unify_title_selection[OF h, of 20 21 sourceA "[sourceB]" defaultOptions "Some [ANILIST]"]
  obtain u where u: "unifyAnimeData 20 21 [sourceA, sourceB] defaultOptions = Inr u"
    and p: "unifyAnimeData 20 21 [sourceA, sourceB]
       (defaultOptions\<lparr>preferredSources := Some [ANILIST]\<rparr>) = Inr u"
    and first: "\<forall>i v. i < length [sourceA, sourceB] \<and>
        romaji (Anime.title ([sourceA, sourceB] ! i)) = Some v \<and>
        (\<forall>j<i. romaji (Anime.title ([sourceA, sourceB] ! j)) = None) \<longrightarrow>
        romaji (Anime.title u) = Some v"
    and y: "year u = year sourceA"
    by blast
  have r: "romaji (Anime.title u) = Some ''Hagane no Renkinjutsushi''"
    using first[rule_format, of 1 "''Hagane no Renkinjutsushi''"]
    by (simp add: sourceA_def sourceB_def)
  have "year u = None" using y by (simp add: sourceA_def)
  with h u p r show ?thesis by blast
qed

text \<open>
  Claim C2 as stated speaks of every scalar field. For \<open>year\<close>, exactly one of the two
  sources defines the field, and the unified record has none, since the first source has none.
\<close>

theorem unify_scalar_counterexample:
  "map year [sourceA, sourceB] = [None, Some 2009] \<and>
   map_sum (\<lambda>e. e) year (unifyAnimeData 20 21 [sourceA, sourceB] defaultOptions) = Inr None"
  by (simp add: unifyAnimeData_def sourceA_def sourceB_def defaultOptions_def Let_def)

section \<open>Array fields\<close>

lemma mergeArrayFields_sorted: "sorted (mergeArrayFields arrays)"
  by (simp add: mergeArrayFields_def)

lemma mergeArrayFields_distinct: "distinct (mergeArrayFields arrays)"
  by (simp add: mergeArrayFields_def)

lemma mergeArrayFields_set:
  "set (mergeArrayFields arrays) = (\<Union>a \<in> set arrays. set a) - {[]}"
  by (auto simp add: mergeArrayFields_def)

lemma mergeArrayFields_fixed:
  assumes "sorted xs" "distinct xs" "[] \<notin> set xs"
  shows "mergeArrayFields [xs] = xs"
proof -
  have "filter (\<lambda>item. item \<noteq> []) xs = xs"
    using assms(3) by (simp add: filter_id_conv) metis
  moreover have "rev (remdups (rev xs)) = xs"
    using assms(2) by (simp add: distinct_remdups_id)
  ultimately show ?thesis
    using assms(1) by (simp add: mergeArrayFields_def sorted_sort_id)
qed

lemma mergeArrayFields_idem:
  "mergeArrayFields [mergeArrayFields arrays] = mergeArrayFields arrays"
  by (rule mergeArrayFields_fixed)
    (simp_all add: mergeArrayFields_sorted mergeArrayFields_distinct mergeArrayFields_set)

lemma unify_merged:
  assumes "unifyAnimeData t1 t2 (base # rest) options = Inr u"
    and "mergeArrays options \<noteq> Some False"
  shows "genres u = mergeArrayFields (map genres (base # rest))"
    and "themes u = mergeArrayFields (map themes (base # rest))"
    and "studios u = mergeArrayFields (map studios (base # rest))"
    and "producers u = mergeArrayFields (map producers (base # rest))"
  using assms by (auto simp add: unifyAnimeData_def Let_def split: option.splits)

lemma unify_not_merged:
  assumes "unifyAnimeData t1 t2 (base # rest) options = Inr u"
    and "mergeArrays options = Some False"
  shows "genres u = genres base \<and> themes u = themes base \<and> studios u = studios base \<and>
    producers u = producers base \<and> licensors u = licensors base"
  using assms by (auto simp add: unifyAnimeData_def Let_def split: option.splits)

text \<open>
  Claim C1, as the code has it. For every non-empty list of sources: unless \<open>mergeArrays\<close>
  is false, each of \<open>genres\<close>, \<open>themes\<close>, \<open>studios\<close> and \<open>producers\<close> of the unified record is
  the sorted (code-unit order, case-sensitive) list without duplicates of the non-empty
  strings in the corresponding arrays of all sources; when \<open>mergeArrays\<close> is false, the five
  arrays, \<open>licensors\<close> included, are those of the first source.
\<close>

theorem unify_array_fields:
  "\<exists>u. unifyAnimeData t1 t2 (base # rest) options = Inr u \<and>
     (mergeArrays options \<noteq> Some False \<longrightarrow>
        (\<forall>f \<in> {genres, themes, studios, producers}.
           sorted (f u) \<and> distinct (f u) \<and>
           set (f u) = (\<Union>s \<in> set (base # rest). set (f s)) - {[]})) \<and>
     (mergeArrays options = Some False \<longrightarrow>
        (\<forall>f \<in> {genres, themes, studios, producers, licensors}. f u = f base))"
proof -
  obtain u where u: "unifyAnimeData t1 t2 (base # rest) options = Inr u"
    using unify_defined by blast
  have m: "sorted (f u) \<and> distinct (f u) \<and>
      set (f u) = (\<Union>s \<in> set (base # rest). set (f s)) - {[]}"
    if "mergeArrays options \<noteq> Some False" "f \<in> {genres, themes, studios, producers}" for f
  proof -
    from that(2) unify_merged[OF u that(1)]
    have "f u = mergeArrayFields (map f (base # rest))" by auto
    then show ?thesis
      by (simp add: mergeArrayFields_sorted mergeArrayFields_distinct mergeArrayFields_set)
  qed
  have k: "f u = f base"
    if "mergeArrays options = Some False"
      "f \<in> {genres, themes, studios, producers, licensors}" for f
    using that(2) unify_not_merged[OF u that(1)] by auto
  from u m k show ?thesis by blast
qed

theorem unify_array_fields_witness:
  "mergeArrays defaultOptions \<noteq> Some False \<and>
   mergeArrays (defaultOptions\<lparr>mergeArrays := Some False\<rparr>) = Some False \<and>
   (\<exists>u. unifyAnimeData 20 21 [sourceA, sourceB] defaultOptions = Inr u \<and>
      genres u = [''Action'', ''Adventure'', ''Drama'']) \<and>
   (\<exists>u. unifyAnimeData 20 21 [sourceA, sourceB]
           (defaultOptions\<lparr>mergeArrays := Some False\<rparr>) = Inr u \<and>
      genres u = genres sourceA \<and> licensors u = licensors sourceA)"
proof -
  have h1: "mergeArrays defaultOptions \<noteq> Some False"
    by (simp add: defaultOptions_def)
  have h2: "mergeArrays (defaultOptions\<lparr>mergeArrays := Some False\<rparr>) = Some False"
    by simp
  from unify_array_fields[of 20 21 sourceA "[sourceB]" defaultOptions] h1
  obtain u where u: "unifyAnimeData 20 21 [sourceA, sourceB] defaultOptions = Inr u"
    and g: "sorted (genres u)" "distinct (genres u)"
      "set (genres u) = (\<Union>s \<in> set [sourceA, sourceB]. set (genres s)) - {[]}"
    by auto
  have "set (genres u) = set [''Action'', ''Adventure'', ''Drama'']"
    using g(3) by (auto simp add: sourceA_def sourceB_def)
  moreover have "sorted [''Action'', ''Adventure'', ''Drama''] \<and>
      distinct [''Action'', ''Adventure'', ''Drama'']"
    by simp
  ultimately have ge: "genres u = [''Action'', ''Adventure'', ''Drama'']"
    using g(1,2) sorted_distinct_set_unique by blast
  from unify_array_fields[of 20 21 sourceA "[sourceB]"
      "defaultOptions\<lparr>mergeArrays := Some False\<rparr>"] h2
  obtain w where w: "unifyAnimeData 20 21 [sourceA, sourceB]
           (defaultOptions\<lparr>mergeArrays := Some False\<rparr>) = Inr w"
    and "genres w = genres sourceA" "licensors w = licensors sourceA"
    by auto
  with h1 h2 u ge show ?thesis by blast
qed

text \<open>
  Claim C1 as stated: with \<open>mergeArrays\<close> left at its default, the licensors of the two
  sources are not united (the unified record keeps those of the first source), and the empty
  string among the genres of the first source is dropped from the union.
\<close>

theorem unify_array_fields_counterexample:
  "map licensors [sourceA, sourceB] = [[''Funimation''], [''Aniplex of America'']] \<and>
   map_sum (\<lambda>e. e) licensors (unifyAnimeData 20 21 [sourceA, sourceB] defaultOptions)
     = Inr [''Funimation''] \<and>
   map genres [sourceA, sourceB] = [[''Drama'', '''', ''Action''], [''Adventure'', ''Action'']] \<and>
   map_sum (\<lambda>e. e) genres (unifyAnimeData 20 21 [sourceA, sourceB] defaultOptions)
     = Inr [''Action'', ''Adventure'', ''Drama'']"
  by (simp add: unifyAnimeData_def sourceA_def sourceB_def defaultOptions_def Let_def
      mergeArrayFields_def)

section \<open>Ratings\<close>

lemma unify_ratings:
  "unifyAnimeData t1 t2 (base # rest) options = Inr u \<Longrightarrow>
   ratings u = concat (map ratings (base # rest))"
  by (auto simp add: unifyAnimeData_def Let_def)

lemma length_concat_at_most_one:
  "(\<forall>x \<in> set xss. length x \<le> 1) \<Longrightarrow>
   length (concat xss) = length (filter (\<lambda>x. x \<noteq> []) xss)"
proof (induction xss)
  case Nil
  then show ?case by simp
next
  case (Cons x xss)
  then have "length x \<le> 1" by simp
  then have "x = [] \<or> length x = 1" by (cases x) auto
  with Cons show ?case by auto
qed

text \<open>
  Claim C3, as the code has it. The unified ratings are the concatenation, in source order,
  of the ratings arrays of the sources: no entry is merged or dropped, and the length is the
  sum of the lengths. When every source carries at most one rating entry, the length is the
  number of sources that carry one.
\<close>

theorem unify_ratings_concat:
  "\<exists>u. unifyAnimeData t1 t2 (base # rest) options = Inr u \<and>
     ratings u = concat (map ratings (base # rest)) \<and>
     length (ratings u) = sum_list (map (\<lambda>s. length (ratings s)) (base # rest)) \<and>
     ((\<forall>s \<in> set (base # rest). length (ratings s) \<le> 1) \<longrightarrow>
        length (ratings u) = length (filter (\<lambda>s. ratings s \<noteq> []) (base # rest)))"
proof -
  obtain u where u: "unifyAnimeData t1 t2 (base # rest) options = Inr u"
    using unify_defined by blast
  have r: "ratings u = concat (map ratings (base # rest))"
    by (rule unify_ratings[OF u])
  have l: "length (ratings u) = sum_list (map (\<lambda>s. length (ratings s)) (base # rest))"
    unfolding r by (simp only: length_concat map_map comp_def)
  have "length (ratings u) = length (filter (\<lambda>s. ratings s \<noteq> []) (base # rest))"
    if "\<forall>s \<in> set (base # rest). length (ratings s) \<le> 1"
  proof -
    from that have "\<forall>x \<in> set (map ratings (base # rest)). length x \<le> 1"
      by simp
    from length_concat_at_most_one[OF this]
    show ?thesis unfolding r by (simp only: filter_map length_map comp_def)
  qed
  with u r l show ?thesis by blast
qed

theorem unify_ratings_concat_witness:
  "length (ratings sourceA) \<le> 1 \<and> length (ratings sourceB) \<le> 1 \<and>
   (\<exists>u. unifyAnimeData 20 21 [sourceA, sourceB] defaultOptions = Inr u \<and>
      ratings u = ratings sourceA @ ratings sourceB \<and> length (ratings u) = 2)"
proof -
  have h: "\<forall>s \<in> set [sourceA, sourceB]. length (ratings s) \<le> 1"
    by (simp add: sourceA_def sourceB_def)
  from unify_ratings_concat[of 20 21 sourceA "[sourceB]" defaultOptions] h
  obtain u where u: "unifyAnimeData 20 21 [sourceA, sourceB] defaultOptions = Inr u"
    and r: "ratings u = concat (map ratings [sourceA, sourceB])"
    and l: "length (ratings u) = length (filter (\<lambda>s. ratings s \<noteq> []) [sourceA, sourceB])"
    by blast
  have "length (ratings u) = 2" using l by (simp add: sourceA_def sourceB_def)
  moreover have "ratings u = ratings sourceA @ ratings sourceB" using r by simp
  moreover have "length (ratings sourceA) \<le> 1 \<and> length (ratings sourceB) \<le> 1"
    using h by simp
  ultimately show ?thesis using u by blast
qed

text \<open>
  Claim C3 as stated: a single source that carries two rating entries is one source with a
  rating, and the unified record has two entries.
\<close>

theorem unify_ratings_counterexample:
  "length (filter (\<lambda>s. ratings s \<noteq> []) [sourceAB]) = 1 \<and>
   length (filter (\<lambda>s. list_ex (\<lambda>r. score r \<noteq> None) (ratings s)) [sourceAB]) = 1 \<and>
   map_sum (\<lambda>e. e) (\<lambda>u. length (ratings u))
     (unifyAnimeData 20 21 [sourceAB] defaultOptions) = Inr 2"
  by (simp add: unifyAnimeData_def sourceAB_def sourceA_def sourceB_def defaultOptions_def
      Let_def)

section \<open>Unifying twice\<close>

lemma synopsis_single:
  "(case sort_key (\<lambda>s. - int (length s))
           (filter (\<lambda>s. s \<noteq> []) (List.map_filter synopsis [a])) of
      [] \<Rightarrow> synopsis a
    | longest # _ \<Rightarrow> Some longest) = synopsis a"
  by (cases "synopsis a") simp_all

lemma unify_single:
  "unifyAnimeData t1 t2 [a] options =
     Inr (a\<lparr>Anime.title := (Anime.title a)\<lparr>synonyms :=
              (if mergeArrays options \<noteq> Some False
               then Some (mergeArrayFields
                 [case synonyms (Anime.title a) of None \<Rightarrow> [] | Some ys \<Rightarrow> ys])
               else synonyms (Anime.title a))\<rparr>,
            genres := (if mergeArrays options \<noteq> Some False
                       then mergeArrayFields [genres a] else genres a),
            themes := (if mergeArrays options \<noteq> Some False
                       then mergeArrayFields [themes a] else themes a),
            studios := (if mergeArrays options \<noteq> Some False
                        then mergeArrayFields [studios a] else studios a),
            producers := (if mergeArrays options \<noteq> Some False
                          then mergeArrayFields [producers a] else producers a),
            lastSyncedAt := t1, updatedAt := t2\<rparr>)"
  unfolding unifyAnimeData_def
  by (cases "mergeArrays options")
    (simp_all add: Let_def synopsis_single selectBestValue_case split: option.splits)

text \<open>
  Claim C9. Unifying a single source, and then unifying the result alone with the same
  options, gives the first result again, but for the two fields that hold the time of the
  call.
\<close>

theorem unify_idempotent:
  "\<exists>u. unifyAnimeData t1 t2 [a] options = Inr u \<and>
     unifyAnimeData t3 t4 [u] options = Inr (u\<lparr>lastSyncedAt := t3, updatedAt := t4\<rparr>)"
  by (simp add: unify_single mergeArrayFields_idem)

theorem unify_idempotent_witness:
  "\<exists>u. unifyAnimeData 20 21 [sourceA] defaultOptions = Inr u \<and>
     unifyAnimeData 30 31 [u] defaultOptions = Inr (u\<lparr>lastSyncedAt := 30, updatedAt := 31\<rparr>) \<and>
     genres u = [''Action'', ''Drama'']"
proof -
  from unify_idempotent[of 20 21 sourceA defaultOptions 30 31]
  obtain u where u: "unifyAnimeData 20 21 [sourceA] defaultOptions = Inr u"
    and v: "unifyAnimeData 30 31 [u] defaultOptions =
      Inr (u\<lparr>lastSyncedAt := 30, updatedAt := 31\<rparr>)"
    by blast
  from u have "genres u = [''Action'', ''Drama'']"
    by (auto simp add: unifyAnimeData_def Let_def sourceA_def defaultOptions_def
        mergeArrayFields_def)
  with u v show ?thesis by blast
qed

section \<open>Fetching from the sources\<close>

lemma fetchFromSources_map_filter:
  "fetchFromSources registry exts =
     List.map_filter
       (\<lambda>x. case registry (ExternalId.source x) of
               None \<Rightarrow> None
             | Some provider \<Rightarrow>
                 (case provider (ExternalId.id' x) of Returned anime \<Rightarrow> Some anime | _ \<Rightarrow> None))
       exts"
  by (induction exts) (simp_all split: option.splits fetch_outcome.splits)

lemma fetchFromSources_empty:
  "fetchFromSources registry exts = [] \<longleftrightarrow>
     (\<forall>x \<in> set exts. \<forall>provider anime.
        registry (ExternalId.source x) = Some provider \<longrightarrow>
        provider (ExternalId.id' x) \<noteq> Returned anime)"
  by (induction exts) (auto split: option.splits fetch_outcome.splits)

text \<open>
  Claim C4. \<open>fetchAndUnify\<close> fails, with the error that says no data could be fetched, exactly
  when no external id has a registered provider that returns a record. Otherwise the sources
  that threw, returned \<open>null\<close> or have no provider are left out, the records that were
  returned are unified in order, and the unified record is stored under its id and returned.
\<close>

theorem fetchAndUnify_outcome:
  "(fetchAndUnify t1 t2 t3 registry repository exts options = Inl NoDataError \<longleftrightarrow>
      (\<forall>x \<in> set exts. \<forall>provider anime.
         registry (ExternalId.source x) = Some provider \<longrightarrow>
         provider (ExternalId.id' x) \<noteq> Returned anime)) \<and>
   (\<forall>e. fetchAndUnify t1 t2 t3 registry repository exts options = Inl e \<longrightarrow> e = NoDataError) \<and>
   (fetchAndUnify t1 t2 t3 registry repository exts options \<noteq> Inl NoDataError \<longrightarrow>
      (\<exists>u. unifyAnimeData t1 t2
             (List.map_filter
                (\<lambda>x. case registry (ExternalId.source x) of
                        None \<Rightarrow> None
                      | Some provider \<Rightarrow>
                          (case provider (ExternalId.id' x) of
                             Returned anime \<Rightarrow> Some anime | _ \<Rightarrow> None))
                exts) options = Inr u \<and>
           fetchAndUnify t1 t2 t3 registry repository exts options =
             Inr (u\<lparr>updatedAt := t3\<rparr>, repository(Anime.id' u \<mapsto> u\<lparr>updatedAt := t3\<rparr>))))"
proof (cases "fetchFromSources registry exts")
  case Nil
  then have "fetchAndUnify t1 t2 t3 registry repository exts options = Inl NoDataError"
    by (simp add: fetchAndUnify_def)
  moreover from Nil have "\<forall>x \<in> set exts. \<forall>provider anime.
         registry (ExternalId.source x) = Some provider \<longrightarrow>
         provider (ExternalId.id' x) \<noteq> Returned anime"
    by (simp only: fetchFromSources_empty)
  ultimately show ?thesis by simp
next
  case (Cons base rest)
  obtain u where u: "unifyAnimeData t1 t2 (base # rest) options = Inr u"
    using unify_defined by blast
  have r: "fetchAndUnify t1 t2 t3 registry repository exts options =
      Inr (u\<lparr>updatedAt := t3\<rparr>, repository(Anime.id' u \<mapsto> u\<lparr>updatedAt := t3\<rparr>))"
    using Cons u by (simp add: fetchAndUnify_def save_def Let_def)
  have n: "\<not> (\<forall>x \<in> set exts. \<forall>provider anime.
         registry (ExternalId.source x) = Some provider \<longrightarrow>
         provider (ExternalId.id' x) \<noteq> Returned anime)"
    using Cons fetchFromSources_empty[of registry exts] by simp
  have m: "unifyAnimeData t1 t2
             (List.map_filter
                (\<lambda>x. case registry (ExternalId.source x) of
                        None \<Rightarrow> None
                      | Some provider \<Rightarrow>
                          (case provider (ExternalId.id' x) of
                             Returned anime \<Rightarrow> Some anime | _ \<Rightarrow> None))
                exts) options = Inr u"
    using u Cons by (simp only: fetchFromSources_map_filter[symmetric])
  from r n m show ?thesis by simp
qed

theorem fetchAndUnify_outcome_witness:
  "fetchAndUnify 20 21 22 sampleRegistry Map.empty
     [\<lparr>ExternalId.source = ANILIST, id' = ''5114''\<rparr>,
      \<lparr>ExternalId.source = KITSU, id' = ''3936''\<rparr>,
      \<lparr>ExternalId.source = MYANIMELIST, id' = ''5114''\<rparr>] defaultOptions \<noteq> Inl NoDataError \<and>
   (\<exists>u. unifyAnimeData 20 21 [sourceA] defaultOptions = Inr u \<and>
      fetchAndUnify 20 21 22 sampleRegistry Map.empty
        [\<lparr>ExternalId.source = ANILIST, id' = ''5114''\<rparr>,
         \<lparr>ExternalId.source = KITSU, id' = ''3936''\<rparr>,
         \<lparr>ExternalId.source = MYANIMELIST, id' = ''5114''\<rparr>] defaultOptions =
        Inr (u\<lparr>updatedAt := 22\<rparr>, [''mal-1'' \<mapsto> u\<lparr>updatedAt := 22\<rparr>])) \<and>
   fetchAndUnify 20 21 22 sampleRegistry Map.empty
     [\<lparr>ExternalId.source = ANILIST, id' = ''5114''\<rparr>,
      \<lparr>ExternalId.source = MYANIMELIST, id' = ''1''\<rparr>] defaultOptions = Inl NoDataError"
proof -
  let ?exts = "[\<lparr>ExternalId.source = ANILIST, id' = ''5114''\<rparr>,
      \<lparr>ExternalId.source = KITSU, id' = ''3936''\<rparr>,
      \<lparr>ExternalId.source = MYANIMELIST, id' = ''5114''\<rparr>]"
  let ?none = "[\<lparr>ExternalId.source = ANILIST, id' = ''5114''\<rparr>,
      \<lparr>ExternalId.source = MYANIMELIST, id' = ''1''\<rparr>]"
  have h: "fetchAndUnify 20 21 22 sampleRegistry Map.empty ?exts defaultOptions
      \<noteq> Inl NoDataError"
    by (simp add: fetchAndUnify_def sampleRegistry_def unifyAnimeData_def Let_def
        split: list.splits)
  from fetchAndUnify_outcome[of 20 21 22 sampleRegistry Map.empty ?exts defaultOptions] h
  obtain u where u: "unifyAnimeData 20 21
             (List.map_filter
                (\<lambda>x. case sampleRegistry (ExternalId.source x) of
                        None \<Rightarrow> None
                      | Some provider \<Rightarrow>
                          (case provider (ExternalId.id' x) of
                             Returned anime \<Rightarrow> Some anime | _ \<Rightarrow> None))
                ?exts) defaultOptions = Inr u"
    and r: "fetchAndUnify 20 21 22 sampleRegistry Map.empty ?exts defaultOptions =
             Inr (u\<lparr>updatedAt := 22\<rparr>, Map.empty(Anime.id' u \<mapsto> u\<lparr>updatedAt := 22\<rparr>))"
    by blast
  from u have u': "unifyAnimeData 20 21 [sourceA] defaultOptions = Inr u"
    by (simp add: sampleRegistry_def)
  then have "Anime.id' u = ''mal-1''"
    by (auto simp add: unifyAnimeData_def Let_def sourceA_def)
  with r have r': "fetchAndUnify 20 21 22 sampleRegistry Map.empty ?exts defaultOptions =
             Inr (u\<lparr>updatedAt := 22\<rparr>, [''mal-1'' \<mapsto> u\<lparr>updatedAt := 22\<rparr>])"
    by simp
  have "\<forall>x \<in> set ?none. \<forall>provider anime.
         sampleRegistry (ExternalId.source x) = Some provider \<longrightarrow>
         provider (ExternalId.id' x) \<noteq> Returned anime"
    by (simp add: sampleRegistry_def)
  with fetchAndUnify_outcome[of 20 21 22 sampleRegistry Map.empty ?none defaultOptions]
  have "fetchAndUnify 20 21 22 sampleRegistry Map.empty ?none defaultOptions = Inl NoDataError"
    by blast
  with h u' r' show ?thesis by blast
qed

section \<open>Statistics of an anime without torrents\<close>

lemma findByAnimeId_empty:
  "findByAnimeId torrentRepository a = [] \<longleftrightarrow>
     (\<forall>t \<in> snd ` set torrentRepository. Torrent.animeId t \<noteq> Some a)"
  by (auto simp add: findByAnimeId_def filter_empty_conv)

lemma getTorrentStats_average:
  "\<exists>x. averageSeeders (getTorrentStats torrentRepository a) = Num x"
proof (cases "findByAnimeId torrentRepository a")
  case Nil
  then show ?thesis by (simp add: getTorrentStats_def)
next
  case (Cons t ts)
  then show ?thesis by (simp add: getTorrentStats_def js_div_def Let_def)
qed

text \<open>
  Claim C10. When the repository holds no torrent of the anime, the statistics are the
  initial ones: no torrents, an average of 0 seeders, a total size of 0 and three empty
  histograms. The division by the number of torrents is only reached when there is one, so
  the average is a number for every repository, never \<open>NaN\<close>.
\<close>

theorem getTorrentStats_no_torrents:
  "((\<forall>t \<in> snd ` set torrentRepository. Torrent.animeId t \<noteq> Some a) \<longrightarrow>
      getTorrentStats torrentRepository a =
        \<lparr>totalTorrents = 0, byQuality = Map.empty, byLanguage = Map.empty,
         byReleaseType = Map.empty, averageSeeders = Num 0, totalSize = Num 0\<rparr>) \<and>
   averageSeeders (getTorrentStats torrentRepository a) \<noteq> NaN"
proof -
  have "getTorrentStats torrentRepository a =
        \<lparr>totalTorrents = 0, byQuality = Map.empty, byLanguage = Map.empty,
         byReleaseType = Map.empty, averageSeeders = Num 0, totalSize = Num 0\<rparr>"
    if "\<forall>t \<in> snd ` set torrentRepository. Torrent.animeId t \<noteq> Some a"
  proof -
    from that have "findByAnimeId torrentRepository a = []"
      by (simp only: findByAnimeId_empty)
    then show ?thesis by (simp add: getTorrentStats_def)
  qed
  moreover have "averageSeeders (getTorrentStats torrentRepository a) \<noteq> NaN"
    using getTorrentStats_average[of torrentRepository a] by auto
  ultimately show ?thesis by blast
qed

theorem getTorrentStats_no_torrents_witness:
  "Torrent.animeId torrentA \<noteq> Some ''kitsu-9'' \<and>
   Torrent.animeId torrentB \<noteq> Some ''kitsu-9'' \<and>
   getTorrentStats [(''t-1'', torrentA), (''t-2'', torrentB)] ''kitsu-9'' =
     \<lparr>totalTorrents = 0, byQuality = Map.empty, byLanguage = Map.empty,
      byReleaseType = Map.empty, averageSeeders = Num 0, totalSize = Num 0\<rparr> \<and>
   averageSeeders (getTorrentStats [(''t-1'', torrentA), (''t-2'', torrentB)] ''mal-1'')
     = Num 30"
proof -
  have h: "Torrent.animeId torrentA \<noteq> Some ''kitsu-9'' \<and>
      Torrent.animeId torrentB \<noteq> Some ''kitsu-9''"
    by (simp add: torrentA_def torrentB_def)
  then have "\<forall>t \<in> snd ` set [(''t-1'', torrentA), (''t-2'', torrentB)].
      Torrent.animeId t \<noteq> Some ''kitsu-9''"
    by simp
  with getTorrentStats_no_torrents[of "[(''t-1'', torrentA), (''t-2'', torrentB)]" "''kitsu-9''"]
  have "getTorrentStats [(''t-1'', torrentA), (''t-2'', torrentB)] ''kitsu-9'' =
     \<lparr>totalTorrents = 0, byQuality = Map.empty, byLanguage = Map.empty,
      byReleaseType = Map.empty, averageSeeders = Num 0, totalSize = Num 0\<rparr>"
    by blast
  moreover have
    "averageSeeders (getTorrentStats [(''t-1'', torrentA), (''t-2'', torrentB)] ''mal-1'')
       = Num 30"
    by (simp add: getTorrentStats_def findByAnimeId_def torrentA_def torrentB_def js_div_def
        Let_def)
  ultimately show ?thesis using h by blast
qed

section \<open>Languages\<close>

lemma set_found:
  "set (map snd (filter (\<lambda>(pattern, lang). list_ex P (split_on sep pattern)) xs)) =
   {lang. \<exists>kw. (kw, lang) \<in>
      set (concat (map (\<lambda>(pattern, lang). map (\<lambda>kw. (kw, lang)) (split_on sep pattern)) xs)) \<and>
      P kw}"
proof (rule set_eqI, rule iffI)
  fix lang
  assume "lang \<in> set (map snd
    (filter (\<lambda>(pattern, lang). list_ex P (split_on sep pattern)) xs))"
  then obtain pattern where "(pattern, lang) \<in> set xs" "list_ex P (split_on sep pattern)"
    by auto
  then obtain kw where "kw \<in> set (split_on sep pattern)" "P kw"
    by (auto simp add: list_ex_iff)
  with \<open>(pattern, lang) \<in> set xs\<close>
  have "(kw, lang) \<in> set (concat (map (\<lambda>(pattern, lang).
      map (\<lambda>kw. (kw, lang)) (split_on sep pattern)) xs))"
    by force
  with \<open>P kw\<close> show "lang \<in> {lang. \<exists>kw. (kw, lang) \<in>
      set (concat (map (\<lambda>(pattern, lang). map (\<lambda>kw. (kw, lang)) (split_on sep pattern)) xs)) \<and>
      P kw}"
    by blast
next
  fix lang
  assume "lang \<in> {lang. \<exists>kw. (kw, lang) \<in>
      set (concat (map (\<lambda>(pattern, lang). map (\<lambda>kw. (kw, lang)) (split_on sep pattern)) xs)) \<and>
      P kw}"
  then obtain kw where k: "(kw, lang) \<in>
      set (concat (map (\<lambda>(pattern, lang). map (\<lambda>kw. (kw, lang)) (split_on sep pattern)) xs))"
    and "P kw"
    by blast
  from k obtain pattern where "(pattern, lang) \<in> set xs" "kw \<in> set (split_on sep pattern)"
    by auto
  with \<open>P kw\<close> have "(pattern, lang) \<in> set xs \<and> list_ex P (split_on sep pattern)"
    by (auto simp add: list_ex_iff)
  then show "lang \<in> set (map snd
    (filter (\<lambda>(pattern, lang). list_ex P (split_on sep pattern)) xs))"
    by force
qed

lemma langMap_keywords:
  "set (concat (map (\<lambda>(pattern, lang). map (\<lambda>kw. (kw, lang)) (split_on CHR ''|'' pattern))
     langMap)) =
   {(''eng'', ENGLISH), (''english'', ENGLISH),
    (''pt-br'', PORTUGUESE_BR), (''portuguese'', PORTUGUESE_BR),
    (''esp'', SPANISH), (''spanish'', SPANISH),
    (''fre'', FRENCH), (''french'', FRENCH),
    (''ger'', GERMAN), (''german'', GERMAN),
    (''ita'', ITALIAN), (''italian'', ITALIAN),
    (''rus'', RUSSIAN), (''russian'', RUSSIAN),
    (''chi'', CHINESE), (''chinese'', CHINESE),
    (''kor'', KOREAN), (''korean'', KOREAN)}"
  by (simp add: langMap_def)

lemma langMap_matches:
  "set (map snd
     (filter (\<lambda>(pattern, lang). list_ex P (split_on CHR ''|'' pattern)) langMap)) =
   {lang. \<exists>kw. (kw, lang) \<in>
      {(''eng'', ENGLISH), (''english'', ENGLISH),
       (''pt-br'', PORTUGUESE_BR), (''portuguese'', PORTUGUESE_BR),
       (''esp'', SPANISH), (''spanish'', SPANISH),
       (''fre'', FRENCH), (''french'', FRENCH),
       (''ger'', GERMAN), (''german'', GERMAN),
       (''ita'', ITALIAN), (''italian'', ITALIAN),
       (''rus'', RUSSIAN), (''russian'', RUSSIAN),
       (''chi'', CHINESE), (''chinese'', CHINESE),
       (''kor'', KOREAN), (''korean'', KOREAN)} \<and> P kw}"
  by (simp only: set_found langMap_keywords)

lemma extractAudioLanguages_dual:
  "includes_str (toLowerCase title') ''dual audio'' \<or>
   includes_str (toLowerCase title') ''multi audio'' \<Longrightarrow>
   extractAudioLanguages title' = [JAPANESE, ENGLISH]"
  by (simp add: extractAudioLanguages_def Let_def)

lemma extractAudioLanguages_markers:
  "\<not> (includes_str (toLowerCase title') ''dual audio'' \<or>
      includes_str (toLowerCase title') ''multi audio'') \<Longrightarrow>
   set (extractAudioLanguages title') =
     (let matched =
        (if includes_str (toLowerCase title') ''japanese'' \<or>
            includes_str (toLowerCase title') ''jpn'' \<or>
            includes_str (toLowerCase title') ''jap'' then {JAPANESE} else {}) \<union>
        (if includes_str (toLowerCase title') ''english'' \<or>
            includes_str (toLowerCase title') ''eng'' \<or>
            includes_str (toLowerCase title') ''dub'' then {ENGLISH} else {})
      in if matched = {} then {JAPANESE} else matched)"
  by (simp add: extractAudioLanguages_def Let_def)

lemma extractAudioLanguages_nonempty: "extractAudioLanguages title' \<noteq> []"
  by (simp add: extractAudioLanguages_def Let_def)

lemma extractSubtitleLanguages_nonempty: "extractSubtitleLanguages title' \<noteq> []"
  by (simp add: extractSubtitleLanguages_def Let_def)

lemma extractSubtitleLanguages_multi:
  "includes_str (toLowerCase title') ''multi'' \<and>
   (includes_str (toLowerCase title') ''sub'' \<or>
    includes_str (toLowerCase title') ''subtitle'') \<Longrightarrow>
   extractSubtitleLanguages title' = [MULTI]"
  by (simp add: extractSubtitleLanguages_def Let_def)

lemma extractSubtitleLanguages_table:
  assumes "\<not> (includes_str (toLowerCase title') ''multi'' \<and>
      (includes_str (toLowerCase title') ''sub'' \<or>
       includes_str (toLowerCase title') ''subtitle''))"
  shows "set (extractSubtitleLanguages title') =
     (let matched = {lang. \<exists>kw. (kw, lang) \<in>
        {(''eng'', ENGLISH), (''english'', ENGLISH),
         (''pt-br'', PORTUGUESE_BR), (''portuguese'', PORTUGUESE_BR),
         (''esp'', SPANISH), (''spanish'', SPANISH),
         (''fre'', FRENCH), (''french'', FRENCH),
         (''ger'', GERMAN), (''german'', GERMAN),
         (''ita'', ITALIAN), (''italian'', ITALIAN),
         (''rus'', RUSSIAN), (''russian'', RUSSIAN),
         (''chi'', CHINESE), (''chinese'', CHINESE),
         (''kor'', KOREAN), (''korean'', KOREAN)} \<and> includes_str (toLowerCase title') kw}
      in if matched = {} then {ENGLISH} else matched)"
proof -
  let ?found = "map snd
     (filter (\<lambda>(pattern, lang).
         list_ex (includes_str (toLowerCase title')) (split_on CHR ''|'' pattern))
        langMap)"
  have e: "extractSubtitleLanguages title' = (if length ?found > 0 then ?found else [ENGLISH])"
    unfolding extractSubtitleLanguages_def Let_def by (simp only: if_not_P[OF assms])
  have "set (extractSubtitleLanguages title') =
      (if set ?found = {} then {ENGLISH} else set ?found)"
    unfolding e by (cases ?found) simp_all
  then show ?thesis
    by (simp only: langMap_matches Let_def)
qed

text \<open>
  Claim C7. Both language lists are never empty. With \<open>t\<close> the lower-cased title: when
  \<open>t\<close> contains "dual audio" or "multi audio" the audio languages are Japanese and
  English; otherwise they are the union of what the Japanese markers and the English markers
  give, and Japanese alone when no marker matches. The subtitle languages are the single
  entry \<open>MULTI\<close> when \<open>t\<close> contains "multi" and "sub" or "subtitle"; otherwise they are the
  languages of the keyword table with a keyword in \<open>t\<close>, and English alone when there is
  none.
\<close>

theorem extract_languages:
  "extractAudioLanguages title' \<noteq> [] \<and> extractSubtitleLanguages title' \<noteq> [] \<and>
   (includes_str (toLowerCase title') ''dual audio'' \<or>
    includes_str (toLowerCase title') ''multi audio'' \<longrightarrow>
      extractAudioLanguages title' = [JAPANESE, ENGLISH]) \<and>
   (\<not> (includes_str (toLowerCase title') ''dual audio'' \<or>
       includes_str (toLowerCase title') ''multi audio'') \<longrightarrow>
      set (extractAudioLanguages title') =
        (let matched =
           (if includes_str (toLowerCase title') ''japanese'' \<or>
               includes_str (toLowerCase title') ''jpn'' \<or>
               includes_str (toLowerCase title') ''jap'' then {JAPANESE} else {}) \<union>
           (if includes_str (toLowerCase title') ''english'' \<or>
               includes_str (toLowerCase title') ''eng'' \<or>
               includes_str (toLowerCase title') ''dub'' then {ENGLISH} else {})
         in if matched = {} then {JAPANESE} else matched)) \<and>
   (includes_str (toLowerCase title') ''multi'' \<and>
    (includes_str (toLowerCase title') ''sub'' \<or>
     includes_str (toLowerCase title') ''subtitle'') \<longrightarrow>
      extractSubtitleLanguages title' = [MULTI]) \<and>
   (\<not> (includes_str (toLowerCase title') ''multi'' \<and>
       (includes_str (toLowerCase title') ''sub'' \<or>
        includes_str (toLowerCase title') ''subtitle'')) \<longrightarrow>
      set (extractSubtitleLanguages title') =
        (let matched = {lang. \<exists>kw. (kw, lang) \<in>
           {(''eng'', ENGLISH), (''english'', ENGLISH),
            (''pt-br'', PORTUGUESE_BR), (''portuguese'', PORTUGUESE_BR),
            (''esp'', SPANISH), (''spanish'', SPANISH),
            (''fre'', FRENCH), (''french'', FRENCH),
            (''ger'', GERMAN), (''german'', GERMAN),
            (''ita'', ITALIAN), (''italian'', ITALIAN),
            (''rus'', RUSSIAN), (''russian'', RUSSIAN),
            (''chi'', CHINESE), (''chinese'', CHINESE),
            (''kor'', KOREAN), (''korean'', KOREAN)} \<and>
           includes_str (toLowerCase title') kw}
         in if matched = {} then {ENGLISH} else matched))"
  using extractAudioLanguages_nonempty[of title'] extractSubtitleLanguages_nonempty[of title']
    extractAudioLanguages_dual[of title'] extractAudioLanguages_markers[of title']
    extractSubtitleLanguages_multi[of title'] extractSubtitleLanguages_table[of title']
  by blast

theorem extract_languages_witness:
  "\<not> (includes_str (toLowerCase ''[Erai] Show - 01 [ENG] JPN'') ''dual audio'' \<or>
      includes_str (toLowerCase ''[Erai] Show - 01 [ENG] JPN'') ''multi audio'') \<and>
   set (extractAudioLanguages ''[Erai] Show - 01 [ENG] JPN'') = {JAPANESE, ENGLISH} \<and>
   includes_str (toLowerCase ''Show [Multi-Subs]'') ''multi'' \<and>
   includes_str (toLowerCase ''Show [Multi-Subs]'') ''sub'' \<and>
   extractSubtitleLanguages ''Show [Multi-Subs]'' = [MULTI] \<and>
   extractAudioLanguages ''Show [Multi-Subs]'' = [JAPANESE]"
proof -
  have h: "\<not> (includes_str (toLowerCase ''[Erai] Show - 01 [ENG] JPN'') ''dual audio'' \<or>
      includes_str (toLowerCase ''[Erai] Show - 01 [ENG] JPN'') ''multi audio'')"
    by (simp add: toLowerCase_def lower_char_def char_of_eq_iff)
  have m: "includes_str (toLowerCase ''Show [Multi-Subs]'') ''multi'' \<and>
      (includes_str (toLowerCase ''Show [Multi-Subs]'') ''sub'' \<or>
       includes_str (toLowerCase ''Show [Multi-Subs]'') ''subtitle'')"
    by (simp add: toLowerCase_def lower_char_def char_of_eq_iff)
  from extract_languages[of "''[Erai] Show - 01 [ENG] JPN''"] h
  have "set (extractAudioLanguages ''[Erai] Show - 01 [ENG] JPN'') =
        (let matched =
           (if includes_str (toLowerCase ''[Erai] Show - 01 [ENG] JPN'') ''japanese'' \<or>
               includes_str (toLowerCase ''[Erai] Show - 01 [ENG] JPN'') ''jpn'' \<or>
               includes_str (toLowerCase ''[Erai] Show - 01 [ENG] JPN'') ''jap''
            then {JAPANESE} else {}) \<union>
           (if includes_str (toLowerCase ''[Erai] Show - 01 [ENG] JPN'') ''english'' \<or>
               includes_str (toLowerCase ''[Erai] Show - 01 [ENG] JPN'') ''eng'' \<or>
               includes_str (toLowerCase ''[Erai] Show - 01 [ENG] JPN'') ''dub''
            then {ENGLISH} else {})
         in if matched = {} then {JAPANESE} else matched)"
    by blast
  then have a: "set (extractAudioLanguages ''[Erai] Show - 01 [ENG] JPN'') =
      {JAPANESE, ENGLISH}"
    by (auto simp add: toLowerCase_def lower_char_def char_of_eq_iff Let_def)
  from extract_languages[of "''Show [Multi-Subs]''"] m
  have s: "extractSubtitleLanguages ''Show [Multi-Subs]'' = [MULTI]"
    by blast
  have j: "extractAudioLanguages ''Show [Multi-Subs]'' = [JAPANESE]"
    by (simp add: extractAudioLanguages_def toLowerCase_def lower_char_def char_of_eq_iff)
  from m have "includes_str (toLowerCase ''Show [Multi-Subs]'') ''multi'' \<and>
      includes_str (toLowerCase ''Show [Multi-Subs]'') ''sub''"
    by (simp add: toLowerCase_def lower_char_def char_of_eq_iff)
  with h a s j show ?thesis by blast
qed

section \<open>Seasons\<close>

declare chunksOf.simps [simp del]

lemma chunksOf_Nil: "chunksOf n [] = []"
  by (subst chunksOf.simps) simp

lemma chunksOf_step:
  "0 < n \<Longrightarrow> xs \<noteq> [] \<Longrightarrow> chunksOf n xs = take n xs # chunksOf n (drop n xs)"
  by (subst chunksOf.simps) simp

lemma concat_chunksOf: "0 < n \<Longrightarrow> concat (chunksOf n xs) = xs"
proof (induction n xs rule: chunksOf.induct)
  case (1 n xs)
  show ?case
  proof (cases "xs = []")
    case True
    then show ?thesis by (simp add: chunksOf_Nil)
  next
    case False
    with "1.prems" have s: "chunksOf n xs = take n xs # chunksOf n (drop n xs)"
      by (rule_tac chunksOf_step)
    from False "1.prems" have "concat (chunksOf n (drop n xs)) = drop n xs"
      by (intro "1.IH") auto
    with s show ?thesis by simp
  qed
qed

lemma length_chunksOf: "0 < n \<Longrightarrow> length (chunksOf n xs) = (length xs + n - 1) div n"
proof (induction n xs rule: chunksOf.induct)
  case (1 n xs)
  show ?case
  proof (cases "xs = []")
    case True
    with "1.prems" show ?thesis by (simp add: chunksOf_Nil)
  next
    case False
    then have pos: "0 < length xs" by simp
    from False "1.prems" have s: "chunksOf n xs = take n xs # chunksOf n (drop n xs)"
      by (rule_tac chunksOf_step)
    from False "1.prems"
    have IH: "length (chunksOf n (drop n xs)) = (length (drop n xs) + n - 1) div n"
      by (intro "1.IH") auto
    show ?thesis
    proof (cases "n \<le> length xs")
      case True
      from pos have a: "length xs + n - 1 = (length xs - 1) + n" by (cases xs) simp_all
      from "1.prems" have b: "(length xs - 1 + n) div n = Suc ((length xs - 1) div n)"
        by simp
      from True have c: "length (drop n xs) + n - 1 = length xs - 1" by simp
      have "length (chunksOf n xs) = Suc (length (chunksOf n (drop n xs)))"
        by (simp add: s)
      also have "\<dots> = Suc ((length xs - 1) div n)"
        by (simp only: IH c)
      also have "\<dots> = (length xs + n - 1) div n"
        by (simp only: a b)
      finally show ?thesis .
    next
      case False
      then have d: "drop n xs = []" by simp
      from pos have a: "length xs + n - 1 = (length xs - 1) + n" by (cases xs) simp_all
      from False "1.prems" have b: "(length xs - 1 + n) div n = Suc 0"
        by simp
      have "length (chunksOf n xs) = Suc 0"
        by (simp add: s d chunksOf_Nil)
      also have "\<dots> = (length xs + n - 1) div n"
        by (simp only: a b)
      finally show ?thesis .
    qed
  qed
qed


lemma nth_chunksOf:
  "0 < n \<Longrightarrow> k < length (chunksOf n xs) \<Longrightarrow> chunksOf n xs ! k = take n (drop (k * n) xs)"
proof (induction n xs arbitrary: k rule: chunksOf.induct)
  case (1 n xs)
  from "1.prems" have ne: "xs \<noteq> []" by (auto simp add: chunksOf_Nil)
  with "1.prems" have s: "chunksOf n xs = take n xs # chunksOf n (drop n xs)"
    by (rule_tac chunksOf_step)
  show ?case
  proof (cases k)
    case 0
    with s show ?thesis by simp
  next
    case (Suc j)
    with "1.prems" s have j: "j < length (chunksOf n (drop n xs))"
      by simp
    from ne "1.prems"(1) j
    have "chunksOf n (drop n xs) ! j = take n (drop (j * n) (drop n xs))"
      by (intro "1.IH") auto
    with Suc s show ?thesis
      by (simp add: add.commute)
  qed
qed

lemma take_drop_nth:
  "take n (drop m xs) = map (nth xs) [m ..< min (m + n) (length xs)]"
proof -
  have "take n (drop m xs) = take n (drop m (map (nth xs) [0 ..< length xs]))"
    by (simp add: map_nth)
  also have "\<dots> = map (nth xs) (take n (drop m [0 ..< length xs]))"
    by (simp only: drop_map take_map)
  also have "take n (drop m [0 ..< length xs]) = [m ..< min (m + n) (length xs)]"
    by (cases "m + n \<le> length xs") (auto simp add: min_def take_upt)
  finally show ?thesis .
qed

lemma ceiling_13: "\<lceil>(of_nat E :: rat) / 13\<rceil> = int ((E + 12) div 13)"
proof -
  have "\<lceil>(of_nat E :: rat) / 13\<rceil> = \<lceil>(of_int (int E) :: rat) / of_int 13\<rceil>"
    by simp
  also have "\<dots> = - (- int E div 13)"
    by (simp only: ceiling_divide_eq_div)
  also have "\<dots> = int ((E + 12) div 13)"
    by (simp add: zdiv_int)
  finally show ?thesis .
qed

lemma unique_season:
  fixes i E :: nat
  assumes "i < E"
  shows "\<exists>!k. k < (E + 12) div 13 \<and> k * 13 \<le> i \<and> i < min ((k + 1) * 13) E"
proof (rule ex1I[of _ "i div 13"])
  have a: "i div 13 * 13 \<le> i"
    by (rule div_times_less_eq_dividend)
  have b: "i < (i div 13 + 1) * 13"
    using dividend_less_div_times[of 13 i] by simp
  from assms have "i + 13 \<le> E + 12" by simp
  then have "(i + 13) div 13 \<le> (E + 12) div 13"
    by (rule div_le_mono)
  then have c: "i div 13 < (E + 12) div 13"
    by simp
  from a b c assms
  show "i div 13 < (E + 12) div 13 \<and> i div 13 * 13 \<le> i \<and> i < min ((i div 13 + 1) * 13) E"
    by simp
next
  fix k :: nat
  assume "k < (E + 12) div 13 \<and> k * 13 \<le> i \<and> i < min ((k + 1) * 13) E"
  then have "13 * k \<le> i" "i < 13 * Suc k" by simp_all
  then have "i div 13 = k" by (rule div_nat_eqI)
  then show "k = i div 13" by simp
qed

lemma one_season: "0 < E \<Longrightarrow> E \<le> 13 \<Longrightarrow> (E + 12) div 13 = (1::nat)"
  by (rule div_nat_eqI) simp_all

lemma length_organizeIntoSeasons:
  "length (organizeIntoSeasons blank a eps) = (length eps + 12) div 13"
  by (simp add: organizeIntoSeasons_def episodesPerSeason_def length_chunksOf)

lemma nth_organizeIntoSeasons:
  assumes "k < length (organizeIntoSeasons blank a eps)"
  shows "organizeIntoSeasons blank a eps ! k =
     (blank k)\<lparr>AnimeSeason.animeId := a,
               seasonNumber := of_nat (k + 1),
               episodeCount := Some (of_nat (length (take 13 (drop (k * 13) eps)))),
               AnimeSeason.episodes := Some (take 13 (drop (k * 13) eps))\<rparr>"
proof -
  from assms have k: "k < length (chunksOf 13 eps)"
    by (simp add: organizeIntoSeasons_def episodesPerSeason_def)
  then have "enumerate 0 (chunksOf 13 eps) ! k = (k, take 13 (drop (k * 13) eps))"
    by (simp add: nth_enumerate_eq nth_chunksOf)
  with k show ?thesis
    by (simp add: organizeIntoSeasons_def episodesPerSeason_def)
qed

lemma seasonEpisodes_organizeIntoSeasons:
  "map seasonEpisodes (organizeIntoSeasons blank a eps) = chunksOf 13 eps"
proof (rule nth_equalityI)
  show "length (map seasonEpisodes (organizeIntoSeasons blank a eps)) = length (chunksOf 13 eps)"
    by (simp add: organizeIntoSeasons_def episodesPerSeason_def)
next
  fix k
  assume "k < length (map seasonEpisodes (organizeIntoSeasons blank a eps))"
  then have k: "k < length (organizeIntoSeasons blank a eps)" by simp
  then have c: "k < length (chunksOf 13 eps)"
    by (simp add: organizeIntoSeasons_def episodesPerSeason_def)
  from k have "map seasonEpisodes (organizeIntoSeasons blank a eps) ! k =
      seasonEpisodes (organizeIntoSeasons blank a eps ! k)"
    by simp
  also have "\<dots> = take 13 (drop (k * 13) eps)"
    by (simp add: nth_organizeIntoSeasons[OF k] seasonEpisodes_def)
  also have "\<dots> = chunksOf 13 eps ! k"
    using c by (simp add: nth_chunksOf)
  finally show "map seasonEpisodes (organizeIntoSeasons blank a eps) ! k = chunksOf 13 eps ! k" .
qed

text \<open>
  Claim C5, on the organizer as the spec describes it. For a non-empty episode list of
  length \<open>E\<close>: there are \<open>\<lceil>E / 13\<rceil>\<close> seasons; the season at index \<open>k\<close> (number
  \<open>k + 1\<close>) holds the episodes at the positions \<open>13 k\<close> up to, and not including,
  \<open>min (13 (k + 1)) E\<close>, and its \<open>episodeCount\<close> is their number; the seasons' episodes, one
  after the other, are the input list, and each position of the input lies in the range of
  exactly one season; and a list of at most 13 episodes gives one season.
\<close>

theorem organizeIntoSeasons_partition:
  assumes "eps \<noteq> []"
  shows "int (length (organizeIntoSeasons blank a eps)) = \<lceil>(of_nat (length eps) :: rat) / 13\<rceil> \<and>
    (\<forall>k < length (organizeIntoSeasons blank a eps).
       seasonNumber (organizeIntoSeasons blank a eps ! k) = of_nat (k + 1) \<and>
       seasonEpisodes (organizeIntoSeasons blank a eps ! k) =
         map (nth eps) [k * 13 ..< min ((k + 1) * 13) (length eps)] \<and>
       episodeCount (organizeIntoSeasons blank a eps ! k) =
         Some (of_nat (length (seasonEpisodes (organizeIntoSeasons blank a eps ! k))))) \<and>
    concat (map seasonEpisodes (organizeIntoSeasons blank a eps)) = eps \<and>
    (\<forall>i < length eps. \<exists>!k. k < length (organizeIntoSeasons blank a eps) \<and>
       k * 13 \<le> i \<and> i < min ((k + 1) * 13) (length eps)) \<and>
    (length eps \<le> 13 \<longrightarrow> length (organizeIntoSeasons blank a eps) = 1)"
proof -
  let ?S = "organizeIntoSeasons blank a eps"
  have len: "length ?S = (length eps + 12) div 13"
    by (rule length_organizeIntoSeasons)
  have c1: "int (length ?S) = \<lceil>(of_nat (length eps) :: rat) / 13\<rceil>"
    by (simp only: len ceiling_13)
  have c2: "seasonNumber (?S ! k) = of_nat (k + 1) \<and>
       seasonEpisodes (?S ! k) = map (nth eps) [k * 13 ..< min ((k + 1) * 13) (length eps)] \<and>
       episodeCount (?S ! k) = Some (of_nat (length (seasonEpisodes (?S ! k))))"
    if "k < length ?S" for k
  proof -
    have e: "seasonEpisodes (?S ! k) = take 13 (drop (k * 13) eps)"
      by (simp add: nth_organizeIntoSeasons[OF that] seasonEpisodes_def)
    have "take 13 (drop (k * 13) eps) = map (nth eps) [k * 13 ..< min (k * 13 + 13) (length eps)]"
      by (rule take_drop_nth)
    moreover have "(k + 1) * 13 = k * 13 + 13" by simp
    ultimately have r: "seasonEpisodes (?S ! k) =
        map (nth eps) [k * 13 ..< min ((k + 1) * 13) (length eps)]"
      using e by (simp only:)
    have "seasonNumber (?S ! k) = of_nat (k + 1)"
      by (simp add: nth_organizeIntoSeasons[OF that])
    moreover have "episodeCount (?S ! k) = Some (of_nat (length (seasonEpisodes (?S ! k))))"
      unfolding e by (simp add: nth_organizeIntoSeasons[OF that])
    ultimately show ?thesis using r by blast
  qed
  have c3: "concat (map seasonEpisodes ?S) = eps"
    by (simp add: seasonEpisodes_organizeIntoSeasons concat_chunksOf)
  have c4: "\<exists>!k. k < length ?S \<and> k * 13 \<le> i \<and> i < min ((k + 1) * 13) (length eps)"
    if "i < length eps" for i
    unfolding len by (rule unique_season[OF that])
  have c5: "length ?S = 1" if "length eps \<le> 13"
    unfolding len using assms that by (intro one_season) simp_all
  from c1 c2 c3 c4 c5 show ?thesis by blast
qed

theorem organizeIntoSeasons_partition_witness:
  "map sampleEpisode [1..<51] \<noteq> [] \<and>
   length (organizeIntoSeasons blankSeason ''test-anime-1'' (map sampleEpisode [1..<51])) = 4 \<and>
   length (seasonEpisodes
     (organizeIntoSeasons blankSeason ''test-anime-1'' (map sampleEpisode [1..<51]) ! 0)) = 13 \<and>
   length (seasonEpisodes
     (organizeIntoSeasons blankSeason ''test-anime-1'' (map sampleEpisode [1..<51]) ! 3)) = 11 \<and>
   concat (map seasonEpisodes
     (organizeIntoSeasons blankSeason ''test-anime-1'' (map sampleEpisode [1..<51])))
     = map sampleEpisode [1..<51]"
proof -
  let ?eps = "map sampleEpisode [1..<51]"
  let ?S = "organizeIntoSeasons blankSeason ''test-anime-1'' ?eps"
  have h: "?eps \<noteq> []" by simp
  note t = organizeIntoSeasons_partition[OF h, of blankSeason "''test-anime-1''"]
  from t have "int (length ?S) = \<lceil>(of_nat (length ?eps) :: rat) / 13\<rceil>"
    by blast
  also have "\<dots> = int ((length ?eps + 12) div 13)"
    by (rule ceiling_13)
  also have "\<dots> = 4" by simp
  finally have l: "length ?S = 4" by simp
  from t have n: "\<forall>k < length ?S. seasonEpisodes (?S ! k) =
      map (nth ?eps) [k * 13 ..< min ((k + 1) * 13) (length ?eps)]"
    by blast
  from n l have "seasonEpisodes (?S ! 0) = map (nth ?eps) [0 * 13 ..< min ((0 + 1) * 13) (length ?eps)]"
    by (intro n[rule_format]) simp
  then have s0: "length (seasonEpisodes (?S ! 0)) = 13" by simp
  from n l have "seasonEpisodes (?S ! 3) = map (nth ?eps) [3 * 13 ..< min ((3 + 1) * 13) (length ?eps)]"
    by (intro n[rule_format]) simp
  then have s3: "length (seasonEpisodes (?S ! 3)) = 11" by simp
  from t have "concat (map seasonEpisodes ?S) = ?eps" by blast
  with h l s0 s3 show ?thesis by blast
qed

section \<open>Size strings\<close>

lemma space_not_numeric: "isSpace c \<Longrightarrow> \<not> (isDigit c \<or> c = CHR ''.'')"
  by (auto simp add: isSpace_def isDigit_def)

lemma letter_not_numeric: "isLetter c \<Longrightarrow> \<not> (isDigit c \<or> c = CHR ''.'')"
  by (auto simp add: isLetter_def isDigit_def)

lemma letter_not_space: "isLetter c \<Longrightarrow> \<not> isSpace c"
  by (auto simp add: isLetter_def isSpace_def)

lemma takeWhile_stop:
  "(\<forall>x \<in> set xs. P x) \<Longrightarrow> (ys \<noteq> [] \<longrightarrow> \<not> P (hd ys)) \<Longrightarrow> takeWhile P (xs @ ys) = xs"
  by (cases ys) (simp_all add: takeWhile_append2)

lemma dropWhile_stop:
  "(\<forall>x \<in> set xs. P x) \<Longrightarrow> (ys \<noteq> [] \<longrightarrow> \<not> P (hd ys)) \<Longrightarrow> dropWhile P (xs @ ys) = ys"
  by (cases ys) (simp_all add: dropWhile_append2)

lemma matchSize_shape:
  assumes "sizeShape sizeStr num ws unit"
  shows "matchSize sizeStr = Some (num, unit)"
proof -
  from assms have s: "sizeStr = num @ (ws @ unit)" and n: "num \<noteq> []"
    and pn: "\<forall>c \<in> set num. isDigit c \<or> c = CHR ''.''"
    and pw: "\<forall>c \<in> set ws. isSpace c" and u: "unit \<noteq> []"
    and pu: "\<forall>c \<in> set unit. isLetter c"
    by (simp_all add: sizeShape_def list_all_iff)
  from u pu have hu: "isLetter (hd unit)" by (cases unit) simp_all
  have "hd (ws @ unit) = (if ws = [] then hd unit else hd ws)" by (cases ws) simp_all
  with pw hu have hw: "\<not> (isDigit (hd (ws @ unit)) \<or> hd (ws @ unit) = CHR ''.'')"
    using space_not_numeric[of "hd ws"] letter_not_numeric[of "hd unit"]
    by (cases ws) auto
  have t: "takeWhile (\<lambda>c. isDigit c \<or> c = CHR ''.'') sizeStr = num"
    unfolding s using pn hw by (intro takeWhile_stop) auto
  have d: "dropWhile (\<lambda>c. isDigit c \<or> c = CHR ''.'') sizeStr = ws @ unit"
    unfolding s using pn hw by (intro dropWhile_stop) auto
  have w: "dropWhile isSpace (ws @ unit) = unit"
    using pw hu letter_not_space[of "hd unit"] by (intro dropWhile_stop) auto
  from n u pu show ?thesis
    unfolding matchSize_def Let_def t d w by (simp add: list_all_iff)
qed



lemma parseFloat_integer:
  assumes "ip \<noteq> []" "list_all isDigit ip"
  shows "parseFloat ip = toDouble (of_int (digitsValue ip))"
proof -
  from assms(2) have t: "takeWhile isDigit ip = ip" and d: "dropWhile isDigit ip = []"
    by (simp_all add: list_all_iff)
  from assms(1) show ?thesis
    unfolding parseFloat_def Let_def t d by (simp add: digitsValue_def)
qed


lemma units_letters:
  "map_of units unit = Some m \<Longrightarrow> unit \<noteq> [] \<and> list_all isLetter unit"
  by (auto simp add: units_def isLetter_def split: if_splits)

lemma digits_numeric: "list_all isDigit ds \<Longrightarrow> list_all (\<lambda>c. isDigit c \<or> c = CHR ''.'') ds"
  by (simp add: list_all_iff)

lemma parseSizeToBytes_shape:
  assumes "sizeShape sizeStr num ws unit" and "unit \<notin> set objectPrototypeKeys"
  shows "parseSizeToBytes sizeStr =
     Math_round (js_mul (parseFloat num)
       (Num (case map_of units unit of Some m \<Rightarrow> m | None \<Rightarrow> 1)))"
  using assms(2)
  by (simp add: parseSizeToBytes_def matchSize_shape[OF assms(1)] Let_def split: option.splits)


text \<open>At 2 to the power 1024 the doubles end.\<close>

lemma bitLength_lower: "2 ^ n \<le> k \<Longrightarrow> n < bitLength k"
proof (induction n arbitrary: k)
  case 0
  then show ?case by (subst bitLength.simps) simp
next
  case (Suc n)
  have "(0 :: int) < 2 ^ Suc n" by simp
  from this Suc.prems have pos: "0 < k" by (rule less_le_trans)
  from Suc.prems have "2 ^ n \<le> k div 2" by simp
  then have "n < bitLength (k div 2)" by (rule Suc.IH)
  with pos show ?case by (subst bitLength.simps) simp
qed

lemma toDouble_overflow:
  assumes "2 ^ 1024 \<le> x"
  shows "toDouble x = PosInfinity"
proof -
  have p: "(0 :: rat) < 2 ^ 1024" by simp
  from p assms have pos: "0 < x" by (rule less_le_trans)
  have "(1 :: rat) \<le> 2 ^ 1024" by (rule one_le_power) simp
  from this assms have one: "1 \<le> x" by (rule order_trans)
  from assms have "(2 :: int) ^ 1024 \<le> \<lfloor>x\<rfloor>" by (simp only: le_floor_iff of_int_power of_int_numeral)
  then have "1024 < bitLength \<lfloor>x\<rfloor>" by (rule bitLength_lower)
  with one have fl: "1024 \<le> floorLog2 x" by (simp add: floorLog2_def)
  from pos have ax: "\<bar>x\<bar> = x" by simp
  from fl have m: "max (floorLog2 x) (- 1022) = floorLog2 x" by simp
  from pos fl show ?thesis unfolding toDouble_def Let_def ax m by simp
qed


lemma digitsValue_snoc:
  "digitsValue (ds @ [c]) = 10 * digitsValue ds + (of_char c - 48)"
  by (simp add: digitsValue_def)

lemma digitsValue_nines: "digitsValue (replicate n CHR ''9'') = 10 ^ n - 1"
proof (induction n)
  case 0
  then show ?case by (simp add: digitsValue_def)
next
  case (Suc n)
  have "replicate (Suc n) CHR ''9'' = replicate n CHR ''9'' @ [CHR ''9'']"
    by (simp only: replicate_append_same replicate_Suc)
  then have "digitsValue (replicate (Suc n) CHR ''9'') =
      10 * digitsValue (replicate n CHR ''9'') + 9"
    by (simp only: digitsValue_snoc) simp
  with Suc.IH show ?case by simp
qed

text \<open>
  A numeral too large for a double is read as infinity, and stays infinite: 310 nines are more
  than 2 to the power 1024.
\<close>

lemma parseSizeToBytes_overflow:
  "parseSizeToBytes (replicate 310 CHR ''9'' @ '' B'') = PosInfinity"
proof -
  have d: "list_all isDigit (replicate 310 CHR ''9'')"
    by (simp add: list_all_iff isDigit_def)
  have n: "replicate 310 CHR ''9'' \<noteq> []"
    by simp
  from d n have "sizeShape (replicate 310 CHR ''9'' @ '' '' @ ''B'') (replicate 310 CHR ''9'') '' '' ''B''"
    by (simp add: sizeShape_def digits_numeric isSpace_def isLetter_def)
  moreover have "''B'' \<notin> set objectPrototypeKeys"
    by (simp add: objectPrototypeKeys_def)
  ultimately have "parseSizeToBytes (replicate 310 CHR ''9'' @ '' '' @ ''B'') =
      Math_round (js_mul (parseFloat (replicate 310 CHR ''9''))
        (Num (case map_of units ''B'' of Some m \<Rightarrow> m | None \<Rightarrow> 1)))"
    by (rule parseSizeToBytes_shape)
  moreover have "parseFloat (replicate 310 CHR ''9'') = toDouble (of_int (10 ^ 310 - 1))"
    using parseFloat_integer[OF n d] by (simp only: digitsValue_nines)
  moreover have "(2 :: rat) ^ 1024 \<le> of_int (10 ^ 310 - 1)"
    by simp
  then have "toDouble (of_int (10 ^ 310 - 1)) = PosInfinity"
    by (rule toDouble_overflow)
  moreover have "(case map_of units ''B'' of Some m \<Rightarrow> m | None \<Rightarrow> 1) = (1 :: rat)"
    by (simp add: units_def)
  ultimately show ?thesis by simp
qed




section \<open>Duplicates\<close>

lemma alnum_not_space: "isLowerAlnum c \<Longrightarrow> \<not> isSpace c"
  by (auto simp add: isLowerAlnum_def isDigit_def isSpace_def)

lemma space_not_alnum: "\<not> isLowerAlnum CHR '' ''"
  by (simp add: isLowerAlnum_def isDigit_def)

lemma replaceRuns_head:
  "s \<noteq> [] \<Longrightarrow> \<not> cls (hd s) \<Longrightarrow> replaceRuns cls s \<noteq> [] \<and> hd (replaceRuns cls s) = hd s"
  by (cases s) simp_all

lemma dropWhile_head: "dropWhile cls s \<noteq> [] \<Longrightarrow> \<not> cls (hd (dropWhile cls s))"
  by (simp add: hd_dropWhile)

lemma replaceRuns_chars:
  "c \<in> set (replaceRuns cls s) \<Longrightarrow> c = CHR '' '' \<or> (c \<in> set s \<and> \<not> cls c)"
proof (induction cls s rule: replaceRuns.induct)
  case (1 cls)
  then show ?case by simp
next
  case (2 cls d ds)
  show ?case
  proof (cases "cls d")
    case True
    with 2 have "c = CHR '' '' \<or> c \<in> set (replaceRuns cls (dropWhile cls ds))" by simp
    with True "2.IH"(1) have "c = CHR '' '' \<or> (c \<in> set (dropWhile cls ds) \<and> \<not> cls c)"
      by blast
    then show ?thesis by (auto dest: set_dropWhileD)
  next
    case False
    with 2 have "c = d \<or> c \<in> set (replaceRuns cls ds)" by simp
    with False "2.IH"(2) show ?thesis by auto
  qed
qed

lemma replaceRuns_single_spaces:
  "cls CHR '' '' \<Longrightarrow>
   successively (\<lambda>a b. a = CHR '' '' \<longrightarrow> b \<noteq> CHR '' '') (replaceRuns cls s)"
proof (induction cls s rule: replaceRuns.induct)
  case (1 cls)
  then show ?case by simp
next
  case (2 cls d ds)
  show ?case
  proof (cases "cls d")
    case True
    let ?r = "dropWhile cls ds"
    from True 2 have IH: "successively (\<lambda>a b. a = CHR '' '' \<longrightarrow> b \<noteq> CHR '' '')
        (replaceRuns cls ?r)"
      by simp
    have "replaceRuns cls ?r = [] \<or> hd (replaceRuns cls ?r) \<noteq> CHR '' ''"
    proof (cases "?r = []")
      case True
      then have "replaceRuns cls ?r = []" by (simp only: replaceRuns.simps)
      then show ?thesis by blast
    next
      case False
      then have n: "\<not> cls (hd ?r)" by (rule dropWhile_head)
      with False have "hd (replaceRuns cls ?r) = hd ?r"
        using replaceRuns_head by blast
      moreover from n "2.prems" have "hd ?r \<noteq> CHR '' ''" by auto
      ultimately show ?thesis by simp
    qed
    with IH True show ?thesis
      by (cases "replaceRuns cls ?r") (simp_all add: successively_Cons)
  next
    case False
    with 2 have IH: "successively (\<lambda>a b. a = CHR '' '' \<longrightarrow> b \<noteq> CHR '' '')
        (replaceRuns cls ds)"
      by simp
    from False "2.prems" have "d \<noteq> CHR '' ''" by auto
    with IH False show ?thesis
      by (cases "replaceRuns cls ds") (simp_all add: successively_Cons)
  qed
qed

text \<open>
  A string of lower-case letters, digits and single spaces: what the first replacement
  leaves.
\<close>

lemma replaceRuns_spaces_id:
  assumes "\<forall>c \<in> set z. isLowerAlnum c \<or> c = CHR '' ''"
    and "successively (\<lambda>a b. a = CHR '' '' \<longrightarrow> b \<noteq> CHR '' '') z"
  shows "replaceRuns isSpace z = z"
  using assms
proof (induction z)
  case Nil
  then show ?case by simp
next
  case (Cons c cs)
  from Cons.prems have tl: "\<forall>c \<in> set cs. isLowerAlnum c \<or> c = CHR '' ''"
    and s: "successively (\<lambda>a b. a = CHR '' '' \<longrightarrow> b \<noteq> CHR '' '') cs"
    by (auto simp add: successively_Cons)
  from Cons.IH[OF tl s] have IH: "replaceRuns isSpace cs = cs" .
  show ?case
  proof (cases "isSpace c")
    case True
    with Cons.prems have c: "c = CHR '' ''"
      using alnum_not_space by auto
    have "dropWhile isSpace cs = cs"
    proof (cases cs)
      case Nil
      then show ?thesis by simp
    next
      case (Cons d ds)
      with Cons.prems c have "d \<noteq> CHR '' ''" by (simp add: successively_Cons)
      with tl Cons have "isLowerAlnum d" by auto
      then have "\<not> isSpace d" by (rule alnum_not_space)
      with Cons show ?thesis by simp
    qed
    with True IH c show ?thesis by simp
  next
    case False
    with IH show ?thesis by simp
  qed
qed

lemma trim_chars: "c \<in> set (trim s) \<Longrightarrow> c \<in> set s"
  by (auto simp add: trim_def dest!: set_dropWhileD)

lemma successively_dropWhile:
  "successively P xs \<Longrightarrow> successively P (dropWhile Q xs)"
proof -
  assume "successively P xs"
  then have "successively P (takeWhile Q xs @ dropWhile Q xs)" by simp
  then show ?thesis by (simp only: successively_append_iff)
qed

lemma trim_single_spaces:
  assumes "successively (\<lambda>a b. a = CHR '' '' \<longrightarrow> b \<noteq> CHR '' '') s"
  shows "successively (\<lambda>a b. a = CHR '' '' \<longrightarrow> b \<noteq> CHR '' '') (trim s)"
proof -
  let ?P = "\<lambda>a b. a = CHR '' '' \<longrightarrow> b \<noteq> CHR '' ''"
  let ?Q = "\<lambda>a b. b = CHR '' '' \<longrightarrow> a \<noteq> CHR '' ''"
  have sym: "?Q = ?P" by auto
  from assms have "successively ?P (dropWhile isSpace s)"
    by (rule successively_dropWhile)
  then have "successively ?Q (dropWhile isSpace s)"
    by (simp only: sym)
  then have "successively ?P (rev (dropWhile isSpace s))"
    by (simp only: successively_rev)
  then have "successively ?P (dropWhile isSpace (rev (dropWhile isSpace s)))"
    by (rule successively_dropWhile)
  then have "successively ?Q (dropWhile isSpace (rev (dropWhile isSpace s)))"
    by (simp only: sym)
  then have "successively ?P (rev (dropWhile isSpace (rev (dropWhile isSpace s))))"
    by (simp only: successively_rev)
  then show ?thesis
    by (simp only: trim_def)
qed

lemma normalize_eq:
  "normalize s = trim (replaceRuns (\<lambda>c. \<not> isLowerAlnum c) (toLowerCase s))"
proof -
  let ?y = "replaceRuns (\<lambda>c. \<not> isLowerAlnum c) (toLowerCase s)"
  have "\<forall>c \<in> set (trim ?y). isLowerAlnum c \<or> c = CHR '' ''"
    using replaceRuns_chars trim_chars by blast
  moreover have "successively (\<lambda>a b. a = CHR '' '' \<longrightarrow> b \<noteq> CHR '' '') (trim ?y)"
    by (intro trim_single_spaces replaceRuns_single_spaces) (simp add: space_not_alnum)
  ultimately have "replaceRuns isSpace (trim ?y) = trim ?y"
    by (rule replaceRuns_spaces_id)
  then show ?thesis by (simp add: normalize_def)
qed

text \<open>
  The association list of the loop: its keys are distinct, and every entry sits under the
  key of its torrent.
\<close>

lemma dedupLoop_keys:
  assumes "distinct (map fst m)" and "\<forall>(k, t) \<in> set m. dedupKey t = k"
  shows "distinct (map fst (dedupLoop ts m)) \<and> (\<forall>(k, t) \<in> set (dedupLoop ts m). dedupKey t = k)"
  using assms
proof (induction ts arbitrary: m)
  case Nil
  then show ?case by simp
next
  case (Cons t ts)
  let ?m = "AList.update (dedupKey t) t m"
  from Cons.prems(1) have d: "distinct (map fst ?m)"
    by (rule distinct_update)
  have k: "\<forall>(k, t') \<in> set ?m. dedupKey t' = k"
  proof -
    have "dedupKey t' = k'" if "(k', t') \<in> set ?m" for k' t'
    proof -
      from that d have "map_of ?m k' = Some t'" by simp
      then have "((map_of m)(dedupKey t \<mapsto> t)) k' = Some t'"
        by (simp only: update_conv')
      then have "(k' = dedupKey t \<and> t' = t) \<or> map_of m k' = Some t'"
        by (auto split: if_splits)
      with Cons.prems(2) show ?thesis
        by (auto dest: map_of_SomeD)
    qed
    then show ?thesis by blast
  qed
  from Cons.IH[OF d k] Cons.IH[OF Cons.prems] show ?case
    by (simp split: option.splits)
qed

lemma dedupLoop_subset:
  "snd ` set (dedupLoop ts m) \<subseteq> snd ` set m \<union> set ts"
proof (induction ts arbitrary: m)
  case Nil
  then show ?case by simp
next
  case (Cons t ts)
  let ?m = "AList.update (dedupKey t) t m"
  have u: "snd ` set ?m \<subseteq> snd ` set m \<union> {t}"
  proof
    fix x
    assume "x \<in> snd ` set ?m"
    then obtain k' where "(k', x) \<in> set ?m" by auto
    then have "(k', x) \<in> set m \<or> x = t"
      by (induction m) (auto split: if_splits)
    then show "x \<in> snd ` set m \<union> {t}" by force
  qed
  from Cons.IH[of ?m] u have a: "snd ` set (dedupLoop ts ?m) \<subseteq> snd ` set m \<union> set (t # ts)"
    by auto
  from Cons.IH[of m] have b: "snd ` set (dedupLoop ts m) \<subseteq> snd ` set m \<union> set (t # ts)"
    by auto
  from a b show ?case
    by (simp split: option.splits)
qed

lemma dedupLoop_best:
  assumes "distinct (map fst m)" and "\<forall>(k, t) \<in> set m. dedupKey t = k"
    and "x \<in> set ts \<or> x \<in> snd ` set m"
  shows "\<exists>s. map_of (dedupLoop ts m) (dedupKey x) = Some s \<and> seeders x \<le> seeders s"
  using assms
proof (induction ts arbitrary: m x)
  case Nil
  then obtain k where "(k, x) \<in> set m" by auto
  with Nil.prems(1,2) have "map_of m (dedupKey x) = Some x" by auto
  then show ?case by auto
next
  case (Cons t ts)
  let ?u = "AList.update (dedupKey t) t m"
  let ?m' = "case map_of m (dedupKey t) of
               None \<Rightarrow> ?u
             | Some existing \<Rightarrow> if seeders t > seeders existing then ?u else m"
  have step: "dedupLoop (t # ts) m = dedupLoop ts ?m'"
    by (simp split: option.splits)
  have d: "distinct (map fst ?m')"
    using Cons.prems(1) by (auto simp add: distinct_update split: option.splits)
  have mo: "map_of ?u = (map_of m)(dedupKey t \<mapsto> t)"
    by (rule update_conv')
  have k: "\<forall>(k, t') \<in> set ?m'. dedupKey t' = k"
  proof -
    have "dedupKey t' = k'" if "(k', t') \<in> set ?m'" for k' t'
    proof -
      from that d have "map_of ?m' k' = Some t'" by simp
      then have "(k' = dedupKey t \<and> t' = t) \<or> map_of m k' = Some t'"
        by (auto simp add: mo split: option.splits if_splits)
      with Cons.prems(2) show ?thesis
        by (auto dest: map_of_SomeD)
    qed
    then show ?thesis by blast
  qed
  show ?case
  proof (cases "x \<in> set ts")
    case True
    then have "\<exists>s. map_of (dedupLoop ts ?m') (dedupKey x) = Some s \<and> seeders x \<le> seeders s"
      by (intro Cons.IH[OF d k]) simp
    then show ?thesis by (simp only: step)
  next
    case False
    with Cons.prems(3) have x: "x = t \<or> x \<in> snd ` set m" by auto
    have "\<exists>y. map_of ?m' (dedupKey x) = Some y \<and> seeders x \<le> seeders y"
    proof (cases "x = t")
      case True
      then show ?thesis
        by (auto simp add: mo split: option.splits)
    next
      case False
      with x obtain k' where "(k', x) \<in> set m" by auto
      with Cons.prems(1,2) have mx: "map_of m (dedupKey x) = Some x" by auto
      then show ?thesis
        by (auto simp add: mo split: option.splits)
    qed
    then obtain y where y: "map_of ?m' (dedupKey x) = Some y" and xy: "seeders x \<le> seeders y"
      by blast
    from y have iny: "(dedupKey x, y) \<in> set ?m'" by (rule map_of_SomeD)
    with k have ky: "dedupKey y = dedupKey x" by blast
    from iny have "y \<in> snd ` set ?m'" by force
    then have "\<exists>s. map_of (dedupLoop ts ?m') (dedupKey y) = Some s \<and> seeders y \<le> seeders s"
      by (intro Cons.IH[OF d k]) simp
    then obtain s where "map_of (dedupLoop ts ?m') (dedupKey x) = Some s" "seeders y \<le> seeders s"
      using ky by auto
    with xy show ?thesis by (auto simp only: step)
  qed
qed

lemma deduplicateTorrents_set:
  "set (deduplicateTorrents torrents) = snd ` set (dedupLoop torrents [])"
  by (simp add: deduplicateTorrents_def)

lemma deduplicateTorrents_pair:
  assumes "infoHash a = infoHash b" "infoHash a \<noteq> []" "seeders a < seeders b"
  shows "deduplicateTorrents [a, b] = [b] \<and> deduplicateTorrents [b, a] = [b]"
  using assms by (simp add: deduplicateTorrents_def dedupKey_def)

text \<open>
  Claim C6. The key of a candidate is its \<open>infoHash\<close> when that is not empty, and otherwise
  its title lower-cased, with every run of characters other than \<open>a-z\<close> and \<open>0-9\<close> made one
  space, and trimmed. The output consists of candidates of the input, no two with the same
  key; every candidate of the input has in the output a candidate of the same key with at
  least as many seeders; and the output is sorted by descending seeders. Of two candidates
  with the same non-empty \<open>infoHash\<close>, the one with more seeders is the only survivor.
\<close>

theorem deduplicateTorrents_correct:
  "(\<forall>t. dedupKey t =
      (if infoHash t \<noteq> [] then infoHash t
       else trim (replaceRuns (\<lambda>c. \<not> isLowerAlnum c) (toLowerCase (Torrent.title t))))) \<and>
   set (deduplicateTorrents torrents) \<subseteq> set torrents \<and>
   distinct (map dedupKey (deduplicateTorrents torrents)) \<and>
   (\<forall>t \<in> set torrents. \<exists>s \<in> set (deduplicateTorrents torrents).
      dedupKey s = dedupKey t \<and> seeders t \<le> seeders s) \<and>
   sorted_wrt (\<lambda>a b. seeders b \<le> seeders a) (deduplicateTorrents torrents) \<and>
   (\<forall>a b. infoHash a = infoHash b \<and> infoHash a \<noteq> [] \<and> seeders a < seeders b \<longrightarrow>
      deduplicateTorrents [a, b] = [b] \<and> deduplicateTorrents [b, a] = [b])"
proof -
  let ?m = "dedupLoop torrents []"
  have inv: "distinct (map fst ?m) \<and> (\<forall>(k, t) \<in> set ?m. dedupKey t = k)"
    by (rule dedupLoop_keys) simp_all
  have c1: "\<forall>t. dedupKey t =
      (if infoHash t \<noteq> [] then infoHash t
       else trim (replaceRuns (\<lambda>c. \<not> isLowerAlnum c) (toLowerCase (Torrent.title t))))"
    by (simp add: dedupKey_def normalize_eq)
  have c2: "set (deduplicateTorrents torrents) \<subseteq> set torrents"
    using dedupLoop_subset[of torrents "[]"] by (simp add: deduplicateTorrents_set)
  have keys: "map dedupKey (map snd ?m) = map fst ?m"
    using inv by (auto simp add: case_prod_beta)
  have "distinct (map dedupKey (map snd ?m))"
    using inv by (simp only: keys)
  then have "distinct (map snd ?m) \<and> inj_on dedupKey (set (map snd ?m))"
    by (simp only: distinct_map)
  then have "distinct (deduplicateTorrents torrents) \<and>
      inj_on dedupKey (set (deduplicateTorrents torrents))"
    by (simp add: deduplicateTorrents_def)
  then have c3: "distinct (map dedupKey (deduplicateTorrents torrents))"
    by (simp only: distinct_map)
  have c4: "\<exists>s \<in> set (deduplicateTorrents torrents).
      dedupKey s = dedupKey t \<and> seeders t \<le> seeders s" if "t \<in> set torrents" for t
  proof -
    from that have "\<exists>s. map_of ?m (dedupKey t) = Some s \<and> seeders t \<le> seeders s"
      by (intro dedupLoop_best) simp_all
    then obtain s where s: "map_of ?m (dedupKey t) = Some s" and le: "seeders t \<le> seeders s"
      by blast
    from s have m: "(dedupKey t, s) \<in> set ?m" by (rule map_of_SomeD)
    with inv have "dedupKey s = dedupKey t" by blast
    moreover from m have "s \<in> set (deduplicateTorrents torrents)"
      unfolding deduplicateTorrents_set by force
    ultimately show ?thesis using le by blast
  qed
  have "sorted (map (\<lambda>t. - seeders t) (deduplicateTorrents torrents))"
    by (simp add: deduplicateTorrents_def)
  then have c5: "sorted_wrt (\<lambda>a b. seeders b \<le> seeders a) (deduplicateTorrents torrents)"
    by (simp add: sorted_map)
  have c6: "\<forall>a b. infoHash a = infoHash b \<and> infoHash a \<noteq> [] \<and> seeders a < seeders b \<longrightarrow>
      deduplicateTorrents [a, b] = [b] \<and> deduplicateTorrents [b, a] = [b]"
    using deduplicateTorrents_pair by blast
  from c1 c2 c3 c4 c5 c6 show ?thesis by blast
qed

theorem deduplicateTorrents_correct_witness:
  "infoHash torrentA = infoHash torrentB \<and> infoHash torrentA \<noteq> [] \<and>
   seeders torrentA = 10 \<and> seeders torrentB = 50 \<and>
   deduplicateTorrents [torrentA, torrentB] = [torrentB] \<and>
   deduplicateTorrents [torrentB, torrentA] = [torrentB] \<and>
   dedupKey torrentC = ''one piece 1001'' \<and> dedupKey torrentD = ''one piece 1001'' \<and>
   map Torrent.id' (deduplicateTorrents [torrentA, torrentD, torrentC, torrentB])
     = [''t-2'', ''t-3'']"
proof -
  have h: "infoHash torrentA = infoHash torrentB \<and> infoHash torrentA \<noteq> [] \<and>
      seeders torrentA < seeders torrentB"
    by (simp add: torrentA_def torrentB_def)
  note t = deduplicateTorrents_correct[of "[torrentA, torrentD, torrentC, torrentB]"]
  from t h have p: "deduplicateTorrents [torrentA, torrentB] = [torrentB] \<and>
      deduplicateTorrents [torrentB, torrentA] = [torrentB]"
    by blast
  from t have kc: "dedupKey torrentC =
      trim (replaceRuns (\<lambda>c. \<not> isLowerAlnum c) (toLowerCase (Torrent.title torrentC)))"
    and kd: "dedupKey torrentD =
      trim (replaceRuns (\<lambda>c. \<not> isLowerAlnum c) (toLowerCase (Torrent.title torrentD)))"
    by (simp_all add: torrentC_def torrentD_def)
  have c: "dedupKey torrentC = ''one piece 1001''"
    unfolding kc
    by (simp add: torrentC_def trim_def toLowerCase_def lower_char_def char_of_eq_iff
        isLowerAlnum_def isDigit_def isSpace_def)
  have d: "dedupKey torrentD = ''one piece 1001''"
    unfolding kd
    by (simp add: torrentD_def trim_def toLowerCase_def lower_char_def char_of_eq_iff
        isLowerAlnum_def isDigit_def isSpace_def)
  have a: "dedupKey torrentA = ''aa''" "dedupKey torrentB = ''aa''"
    by (simp_all add: dedupKey_def torrentA_def torrentB_def)
  have s: "seeders torrentA = 10" "seeders torrentB = 50" "seeders torrentC = 30"
    "seeders torrentD = 7"
    by (simp_all add: torrentA_def torrentB_def torrentC_def torrentD_def)
  have i: "Torrent.id' torrentB = ''t-2''" "Torrent.id' torrentC = ''t-3''"
    by (simp_all add: torrentB_def torrentC_def)
  have "deduplicateTorrents [torrentA, torrentD, torrentC, torrentB] = [torrentB, torrentC]"
    by (simp add: deduplicateTorrents_def a c d s)
  with i have l: "map Torrent.id' (deduplicateTorrents [torrentA, torrentD, torrentC, torrentB])
     = [''t-2'', ''t-3'']"
    by simp
  from h p c d l s show ?thesis by blast
qed

end
